theory Spec2Isabelle
  imports Main "HOL-Library.Sublist" "HOL-Library.Char_ord" "HOL-Library.List_Lexorder"
begin

section \<open>Go strings and the standard library functions the code calls\<close>

text \<open>
  A Go \<open>string\<close> is a sequence of bytes, and \<open>len\<close> and slicing count bytes: the model
  uses \<open>string\<close> (a list of 8-bit characters). The library functions below are not code of
  the repository; each is modelled after the behaviour of the Go standard library on the
  bytes it is given, for a 64-bit \<open>int\<close>.

  Case mapping of non-ASCII text follows the Unicode tables, and language detection, the
  package tables and the string set live in packages that are not among the sources. These
  are parameters of the model, collected in one record.
\<close>

record env =
  unicode_ToUpper :: "string \<Rightarrow> string"
    \<comment> \<open>\<open>strings.Map(unicode.ToUpper, s)\<close>, used for a string with a byte above 0x7F\<close>
  unicode_ToLower :: "string \<Rightarrow> string"
    \<comment> \<open>\<open>strings.Map(unicode.ToLower, s)\<close>, used for a string with a byte above 0x7F\<close>
  KeyLengthLimit :: nat
    \<comment> \<open>\<open>span.KeyLengthLimit\<close>\<close>
  dbmap :: "string \<Rightarrow> string list option"
    \<comment> \<open>the asset \<open>assets/genios/dbmap.json\<close>\<close>
  DetectLang3 :: "string \<Rightarrow> string option"
    \<comment> \<open>\<open>span.DetectLang3\<close>; \<open>None\<close> is its error\<close>
  ISSNPattern_FindAllString :: "string \<Rightarrow> string list"
    \<comment> \<open>\<open>span.ISSNPattern.FindAllString(s, -1)\<close>\<close>
  StringSet_Values :: "string list \<Rightarrow> string list"
    \<comment> \<open>\<open>container.StringSet.Values()\<close> of the set built by adding the given strings in order\<close>

definition is_digit :: "char \<Rightarrow> bool" where
  "is_digit c = (48 \<le> (of_char c :: nat) \<and> (of_char c :: nat) \<le> 57)"

definition is_ascii :: "char \<Rightarrow> bool" where
  "is_ascii c = ((of_char c :: nat) < 128)"

definition ascii_upper :: "char \<Rightarrow> char" where
  "ascii_upper c =
     (case map_of (zip ''abcdefghijklmnopqrstuvwxyz'' ''ABCDEFGHIJKLMNOPQRSTUVWXYZ'') c of
        Some u \<Rightarrow> u | None \<Rightarrow> c)"

definition ascii_lower :: "char \<Rightarrow> char" where
  "ascii_lower c =
     (case map_of (zip ''ABCDEFGHIJKLMNOPQRSTUVWXYZ'' ''abcdefghijklmnopqrstuvwxyz'') c of
        Some l \<Rightarrow> l | None \<Rightarrow> c)"

text \<open>\<open>strings.ToUpper\<close> and \<open>strings.ToLower\<close>: bytewise on an ASCII string, by the
  Unicode tables otherwise.\<close>

definition ToUpper :: "'a env_scheme \<Rightarrow> string \<Rightarrow> string" where
  "ToUpper e s = (if list_all is_ascii s then map ascii_upper s else unicode_ToUpper e s)"

definition ToLower :: "'a env_scheme \<Rightarrow> string \<Rightarrow> string" where
  "ToLower e s = (if list_all is_ascii s then map ascii_lower s else unicode_ToLower e s)"

text \<open>
  \<open>strings.TrimSpace\<close> removes leading and trailing white space as \<open>unicode.IsSpace\<close>
  defines it. The white space runes and their UTF-8 encodings: the six ASCII ones
  (tab, line feed, vertical tab, form feed, carriage return, space), U+0085 and U+00A0
  (two bytes), U+1680, U+2000 to U+200A, U+2028, U+2029, U+202F, U+205F and U+3000 (three
  bytes). A rune is decoded from the front when trimming on the left and from the back
  when trimming on the right; an encoding of a white space rune is recognised either way.
\<close>

definition space_runes :: "string list" where
  "space_runes =
     [[CHR 0x09], [CHR 0x0A], [CHR 0x0B], [CHR 0x0C], [CHR 0x0D], [CHR 0x20],
      [CHR 0xC2, CHR 0x85], [CHR 0xC2, CHR 0xA0],
      [CHR 0xE1, CHR 0x9A, CHR 0x80],
      [CHR 0xE2, CHR 0x80, CHR 0x80], [CHR 0xE2, CHR 0x80, CHR 0x81],
      [CHR 0xE2, CHR 0x80, CHR 0x82], [CHR 0xE2, CHR 0x80, CHR 0x83],
      [CHR 0xE2, CHR 0x80, CHR 0x84], [CHR 0xE2, CHR 0x80, CHR 0x85],
      [CHR 0xE2, CHR 0x80, CHR 0x86], [CHR 0xE2, CHR 0x80, CHR 0x87],
      [CHR 0xE2, CHR 0x80, CHR 0x88], [CHR 0xE2, CHR 0x80, CHR 0x89],
      [CHR 0xE2, CHR 0x80, CHR 0x8A],
      [CHR 0xE2, CHR 0x80, CHR 0xA8], [CHR 0xE2, CHR 0x80, CHR 0xA9],
      [CHR 0xE2, CHR 0x80, CHR 0xAF], [CHR 0xE2, CHR 0x81, CHR 0x9F],
      [CHR 0xE3, CHR 0x80, CHR 0x80]]"

text \<open>The width in bytes of the rune in \<open>rs\<close> that the string starts with, 0 when it starts
  with none of them.\<close>

definition lead_width :: "string list \<Rightarrow> string \<Rightarrow> nat" where
  "lead_width rs s = (case find (\<lambda>r. prefix r s) rs of None \<Rightarrow> 0 | Some r \<Rightarrow> length r)"

fun strip_lead :: "string list \<Rightarrow> string \<Rightarrow> string" where
  "strip_lead rs [] = []"
| "strip_lead rs (c # cs) =
     (if lead_width rs (c # cs) = 0 then c # cs
      else strip_lead rs (drop (lead_width rs (c # cs) - 1) cs))"

definition TrimSpace :: "string \<Rightarrow> string" where
  "TrimSpace s = rev (strip_lead (map rev space_runes) (rev (strip_lead space_runes s)))"

section \<open>Package span: ISSN\<close>

datatype span_error = ErrInvalidISSN

text \<open>\<open>replacer = strings.NewReplacer("-", "", " ", "")\<close>: every hyphen and every space
  is removed.\<close>

definition replacer_Replace :: "string \<Rightarrow> string" where
  "replacer_Replace s = filter (\<lambda>c. c \<noteq> CHR ''-'' \<and> c \<noteq> CHR '' '') s"

text \<open>\<open>pattern = regexp.MustCompile("^[0-9]{7}[0-9X]$")\<close>. The matcher consumes the
  counted digits, then wants one more byte of the final class and the end of the text.\<close>

fun match_digits :: "nat \<Rightarrow> string \<Rightarrow> string option" where
  "match_digits 0 s = Some s"
| "match_digits (Suc n) [] = None"
| "match_digits (Suc n) (c # cs) = (if is_digit c then match_digits n cs else None)"

definition pattern_Match :: "string \<Rightarrow> bool" where
  "pattern_Match t =
     (case match_digits 7 t of
        Some [c] \<Rightarrow> is_digit c \<or> c = CHR ''X''
      | _ \<Rightarrow> False)"

text \<open>\<open>func (s ISSN) Validate() error\<close>; \<open>None\<close> is the nil error.\<close>

definition Validate :: "'a env_scheme \<Rightarrow> string \<Rightarrow> span_error option" where
  "Validate e s =
     (let t = TrimSpace (ToUpper e (replacer_Replace s)) in
      if length t \<noteq> 8 then Some ErrInvalidISSN
      else if \<not> pattern_Match t then Some ErrInvalidISSN
      else None)"

text \<open>\<open>func (s ISSN) String() string\<close>.\<close>

definition ISSN_String :: "'a env_scheme \<Rightarrow> string \<Rightarrow> string" where
  "ISSN_String e s =
     (let t = TrimSpace (ToUpper e (replacer_Replace s)) in
      if length t \<noteq> 8 then s else take 4 t @ ''-'' @ drop 4 t)"

text \<open>
  The check digit rule of the ISSN standard, which the code does not implement. It is
  defined here only to say what \<open>Validate\<close> leaves unchecked: the digits weighted 8 down
  to 2, plus the check character (\<open>X\<close> counts 10), must be a multiple of 11.
\<close>

definition digit_val :: "char \<Rightarrow> nat" where
  "digit_val c = of_char c - 48"

definition issn_check_digit_ok :: "string \<Rightarrow> bool" where
  "issn_check_digit_ok t =
     (length t = 8 \<and>
      (sum_list (map2 (\<lambda>w c. w * digit_val c) [8, 7, 6, 5, 4, 3, 2] (take 7 t))
        + (if t ! 7 = CHR ''X'' then 10 else digit_val (t ! 7))) mod 11 = 0)"

section \<open>Numbers as text\<close>

text \<open>The value of a string of decimal digits, and the decimal text of a number
  (\<open>%d\<close> of package fmt).\<close>

definition digits_val :: "string \<Rightarrow> nat" where
  "digits_val s = foldl (\<lambda>n c. 10 * n + digit_val c) 0 s"

definition digit_char :: "nat \<Rightarrow> char" where
  "digit_char d = ''0123456789'' ! d"

fun nat_digits :: "nat \<Rightarrow> string" where
  "nat_digits n =
     (if n < 10 then [digit_char n] else nat_digits (n div 10) @ [digit_char (n mod 10)])"

declare nat_digits.simps [simp del]

definition itoa :: "int \<Rightarrow> string" where
  "itoa i = (if i < 0 then CHR ''-'' # nat_digits (nat (- i)) else nat_digits (nat i))"

text \<open>Arithmetic on \<open>int\<close> and \<open>int64\<close> wraps around in two's complement.\<close>

definition wrap64 :: "int \<Rightarrow> int" where
  "wrap64 x = (x + 2 ^ 63) mod 2 ^ 64 - 2 ^ 63"

text \<open>
  \<open>strconv.Atoi\<close> returns a value and an error. The text is an optional sign and decimal
  digits; anything else is a syntax error with value 0. A number outside the 64-bit range is
  a range error, and the value returned with it is the nearest bound.
\<close>

datatype num_error = ErrSyntax | ErrRange

definition Atoi :: "string \<Rightarrow> int \<times> num_error option" where
  "Atoi s =
     (let neg = (s \<noteq> [] \<and> hd s = CHR ''-'');
          body = (if s \<noteq> [] \<and> (hd s = CHR ''-'' \<or> hd s = CHR ''+'') then tl s else s);
          n = int (digits_val body)
      in if body = [] \<or> \<not> list_all is_digit body then (0, Some ErrSyntax)
         else if \<not> neg \<and> 2 ^ 63 \<le> n then (2 ^ 63 - 1, Some ErrRange)
         else if neg \<and> 2 ^ 63 < n then (- (2 ^ 63), Some ErrRange)
         else (if neg then - n else n, None))"

section \<open>Package time: durations\<close>

text \<open>
  A \<open>time.Duration\<close> is a 64-bit count of nanoseconds. \<open>time.ParseDuration\<close> reads an
  optional sign and then groups of a decimal number and a unit. The model follows the
  library's loop for groups with whole numbers; a group with a decimal point needs floating
  point arithmetic and is marked as outside the model (the repository never passes one).
  Every error return of the library returns the duration 0.
\<close>

definition hour :: int where
  "hour = 3600000000000"

definition unitMap :: "string \<Rightarrow> int option" where
  "unitMap =
     map_of [(''ns'', 1), (''us'', 1000),
             ([CHR 0xC2, CHR 0xB5, CHR ''s''], 1000), ([CHR 0xCE, CHR 0xBC, CHR ''s''], 1000),
             (''ms'', 1000000), (''s'', 1000000000), (''m'', 60000000000), (''h'', hour)]"

datatype duration_error =
  InvalidDuration | MissingUnit | UnknownDurationUnit string | FractionNotModelled

text \<open>\<open>leadingInt\<close>: the number the string starts with and the rest, or an error when the
  number does not fit.\<close>

definition leadingInt :: "string \<Rightarrow> (int \<times> string) option" where
  "leadingInt s =
     (let n = int (digits_val (takeWhile is_digit s)) in
      if 2 ^ 63 - 1 < n then None else Some (n, dropWhile is_digit s))"

definition unit_char :: "char \<Rightarrow> bool" where
  "unit_char c = (c \<noteq> CHR ''.'' \<and> \<not> is_digit c)"

function parse_groups :: "int \<Rightarrow> string \<Rightarrow> duration_error + int" where
  "parse_groups d s =
     (if s = [] then Inr d
      else if hd s = CHR ''.'' then Inl FractionNotModelled
      else if \<not> is_digit (hd s) then Inl InvalidDuration
      else
        (case leadingInt s of
           None \<Rightarrow> Inl InvalidDuration
         | Some (v, s1) \<Rightarrow>
             if s1 \<noteq> [] \<and> hd s1 = CHR ''.'' then Inl FractionNotModelled
             else if takeWhile unit_char s1 = [] then Inl MissingUnit
             else
               (case unitMap (takeWhile unit_char s1) of
                  None \<Rightarrow> Inl (UnknownDurationUnit (takeWhile unit_char s1))
                | Some un \<Rightarrow>
                    if (2 ^ 63 - 1) div un < v then Inl InvalidDuration
                    else if wrap64 (d + v * un) < 0 then Inl InvalidDuration
                    else parse_groups (wrap64 (d + v * un)) (dropWhile unit_char (dropWhile is_digit s)))))"
  by pat_completeness auto
termination
proof (relation "measure (\<lambda>(d, s). length s)")
  show "wf (measure (\<lambda>(d, s). length s))" by simp
next
  fix d :: int and s :: string
  assume "s \<noteq> []" and "\<not> \<not> is_digit (hd s)"
  then have "length (dropWhile is_digit s) < length s"
    by (cases s) (auto simp: less_Suc_eq_le length_dropWhile_le)
  moreover have "length (dropWhile unit_char (dropWhile is_digit s)) \<le> length (dropWhile is_digit s)"
    by (rule length_dropWhile_le)
  ultimately show "((wrap64 (d + v * un), dropWhile unit_char (dropWhile is_digit s)), (d, s))
      \<in> measure (\<lambda>(d, s). length s)" for v un
    by simp
qed

declare parse_groups.simps [simp del]

definition ParseDuration :: "string \<Rightarrow> duration_error + int" where
  "ParseDuration s =
     (let neg = (s \<noteq> [] \<and> hd s = CHR ''-'');
          s1 = (if s \<noteq> [] \<and> (hd s = CHR ''-'' \<or> hd s = CHR ''+'') then tl s else s)
      in if s1 = ''0'' then Inr 0
         else if s1 = [] then Inl InvalidDuration
         else (case parse_groups 0 s1 of
                 Inl err \<Rightarrow> Inl err
               | Inr d \<Rightarrow> Inr (if neg then - d else d)))"

section \<open>Package holdings\<close>

text \<open>
  \<open>DelayPattern = regexp.MustCompile(`^-(\d+)(M|Y)$`)\<close>. \<open>FindStringSubmatch\<close> returns
  the whole match and the two groups, or nil. The unit is not a digit and stands right
  after the number, so the first group is the whole run of digits after the hyphen.
\<close>

definition DelayPattern_FindStringSubmatch :: "string \<Rightarrow> string list" where
  "DelayPattern_FindStringSubmatch s =
     (case s of
        [] \<Rightarrow> []
      | c # r \<Rightarrow>
          if c = CHR ''-'' \<and> takeWhile is_digit r \<noteq> []
             \<and> (dropWhile is_digit r = ''M'' \<or> dropWhile is_digit r = ''Y'')
          then [s, takeWhile is_digit r, dropWhile is_digit r]
          else [])"

datatype holdings_error =
  UnknownFormat string  \<comment> \<open>\<open>fmt.Errorf("unknown format: %s", s)\<close>\<close>
| UnknownUnit string  \<comment> \<open>\<open>fmt.Errorf("unknown unit: %s", ms[2])\<close>\<close>
| AtoiError num_error  \<comment> \<open>the error of \<open>strconv.Atoi\<close>\<close>

text \<open>
  \<open>func ParseDelay(s string) (d time.Duration, err error)\<close>. The error of
  \<open>time.ParseDuration\<close> is assigned to the \<open>err\<close> declared with \<open>value\<close> inside the
  \<open>if\<close> and never read: after the \<open>switch\<close> the function returns \<open>d, nil\<close>, where
  \<open>d\<close> is what \<open>ParseDuration\<close> returned.
\<close>

definition duration_of :: "duration_error + int \<Rightarrow> int" where
  "duration_of r = (case r of Inl err \<Rightarrow> 0 | Inr d \<Rightarrow> d)"

definition ParseDelay :: "string \<Rightarrow> holdings_error + int" where
  "ParseDelay s =
     (let ms = DelayPattern_FindStringSubmatch s in
      if length ms = 3 then
        (case Atoi (ms ! 1) of
           (v, Some err) \<Rightarrow> Inl (AtoiError err)
         | (v, None) \<Rightarrow>
             if ms ! 2 = ''Y'' then
               Inr (duration_of (ParseDuration (''-'' @ itoa (wrap64 (v * 8760)) @ ''h'')))
             else if ms ! 2 = ''M'' then
               Inr (duration_of (ParseDuration (''-'' @ itoa (wrap64 (v * 720)) @ ''h'')))
             else Inl (UnknownUnit (ms ! 2)))
      else Inl (UnknownFormat s))"

record Entitlement =
  Status :: string
  URL :: string
  Anchor :: string
  FromYear :: int
  FromVolume :: int
  FromIssue :: int
  FromDelay :: string
  ToYear :: int
  ToVolume :: int
  ToIssue :: int
  ToDelay :: string

text \<open>\<open>func (e *Entitlement) Delay() (d time.Duration, err error)\<close>.\<close>

definition Delay :: "Entitlement \<Rightarrow> holdings_error + int" where
  "Delay e =
     (if FromDelay e \<noteq> [] then ParseDelay (FromDelay e)
      else if ToDelay e \<noteq> [] then ParseDelay (ToDelay e)
      else Inr 0)"

text \<open>\<open>func (e *Entitlement) Boundary() (d time.Time, err error)\<close>, with the reading of the
  clock (\<open>time.Now()\<close>, in nanoseconds) as an argument.\<close>

definition Boundary :: "int \<Rightarrow> Entitlement \<Rightarrow> holdings_error + int" where
  "Boundary now e = (case Delay e of Inl err \<Rightarrow> Inl err | Inr delay \<Rightarrow> Inr (now + delay))"

record Holding =
  EZBID :: int
  Title :: string
  Publishers :: string
  PISSN :: "string list"
  EISSN :: "string list"
  Entitlements :: "Entitlement list"

text \<open>
  \<open>HoldingsMap\<close> reads XML tokens until the decoder returns none. The model takes the
  tokens as a list: a start element carries its local name and the value that
  \<open>decoder.DecodeElement\<close> fills in for it (the decoder consumes the element's content, and
  its error is ignored); every other token only passes by.
\<close>

datatype token = StartElement string Holding | OtherToken

definition assign_all :: "string list \<Rightarrow> Holding \<Rightarrow> (string \<rightharpoonup> Holding) \<Rightarrow> (string \<rightharpoonup> Holding)" where
  "assign_all ids item h = fold (\<lambda>id m. m(id \<mapsto> item)) ids h"

fun HoldingsMap_loop :: "token list \<Rightarrow> (string \<rightharpoonup> Holding) \<Rightarrow> (string \<rightharpoonup> Holding)" where
  "HoldingsMap_loop [] h = h"
| "HoldingsMap_loop (OtherToken # ts) h = HoldingsMap_loop ts h"
| "HoldingsMap_loop (StartElement tag item # ts) h =
     (if tag = ''holding''
      then HoldingsMap_loop ts (assign_all (PISSN item) item (assign_all (EISSN item) item h))
      else HoldingsMap_loop ts h)"

definition HoldingsMap :: "token list \<Rightarrow> (string \<rightharpoonup> Holding)" where
  "HoldingsMap ts = HoldingsMap_loop ts Map.empty"

text \<open>The holding elements of a document, in document order.\<close>

fun holdings_of :: "token list \<Rightarrow> Holding list" where
  "holdings_of [] = []"
| "holdings_of (OtherToken # ts) = holdings_of ts"
| "holdings_of (StartElement tag item # ts) =
     (if tag = ''holding'' then item # holdings_of ts else holdings_of ts)"


section \<open>Batching iterators\<close>

text \<open>
  Both iterators run in a goroutine that sends batches on an unbuffered channel and closes
  it at the end of the input. The model is the loop with its variables as arguments; the
  channel is the list of what has been sent so far, in the order the receiver gets it.
  \<open>log.Fatal\<close> ends the process: the result then holds what had been sent.

  \<open>span.Batcher\<close> holds the items and the function \<open>Apply\<close>, which is the same in every
  batch of a source; the record keeps the items.
\<close>

datatype 'b sent = Closed "'b list" | Fatal "'b list"

record 'a Batcher =
  Items :: "'a list"

subsection \<open>Crossref\<close>

text \<open>
  \<open>reader.ReadString('\n')\<close> returns a line with its line feed, or an error. The input of
  the model is the list of results before \<open>io.EOF\<close>: a last line without a line feed
  arrives together with \<open>io.EOF\<close>, where the loop breaks, so it is not among them.
\<close>

datatype 'a read_result = Line 'a | ReadError

text \<open>
  Crossref sends its one \<open>batch\<close> by value and then cuts \<open>batch.Items\<close> back to
  \<open>batch.Items[:0]\<close>: the slice that the receiver holds and the slice that the loop
  goes on appending to share one backing array. A batch that has been sent keeps its
  length, but its items are overwritten by the lines read after it. The model therefore
  has the backing array \<open>store\<close> (its cells written so far), the length \<open>n\<close> of
  \<open>batch.Items\<close>, and a channel of the lengths of the slices sent; a batch of the result
  is a sent slice as it reads once the channel is closed. Which items a receiver finds
  earlier depends on when it reads; the length is the same at any time.

  \<open>append(batch.Items, line)\<close> writes the cell after the slice. Before the first send
  the array grows with the slice (Go may move it, but nothing has been sent that holds
  the old one); from the first send on the slice has at most \<open>BatchSize\<close> items and the
  array that many cells, so \<open>append\<close> writes in place.
\<close>

definition append_at :: "'a list \<Rightarrow> nat \<Rightarrow> 'a \<Rightarrow> 'a list" where
  "append_at store n x = (if n < length store then store[n := x] else store @ [x])"

fun Crossref_loop ::
  "nat \<Rightarrow> string read_result list \<Rightarrow> string list \<Rightarrow> nat \<Rightarrow> nat \<Rightarrow> nat list \<Rightarrow> string Batcher sent" where
  "Crossref_loop B [] store n i ch = Closed (map (\<lambda>k. \<lparr>Items = take k store\<rparr>) (ch @ [n]))"
| "Crossref_loop B (ReadError # rs) store n i ch = Fatal (map (\<lambda>k. \<lparr>Items = take k store\<rparr>) ch)"
| "Crossref_loop B (Line line # rs) store n i ch =
     (if i = B
      then Crossref_loop B rs (append_at store n line) 0 1 (ch @ [n + 1])
      else Crossref_loop B rs (append_at store n line) (n + 1) (i + 1) ch)"

definition Crossref_batches :: "nat \<Rightarrow> string read_result list \<Rightarrow> string Batcher sent" where
  "Crossref_batches B rs = Crossref_loop B rs [] 0 1 []"

text \<open>\<open>BatchSize = 25000\<close> and \<open>func (c Crossref) Iterate\<close>.\<close>

definition crossref_BatchSize :: nat where
  "crossref_BatchSize = 25000"

definition Crossref_Iterate :: "string read_result list \<Rightarrow> string Batcher sent" where
  "Crossref_Iterate rs = Crossref_batches crossref_BatchSize rs"

subsection \<open>Genios\<close>

text \<open>
  \<open>decoder.Token()\<close> returns the XML tokens until it returns nil. A start element named
  \<open>Document\<close> is decoded by \<open>decoder.DecodeElement\<close> into a document, or fails
  (\<open>None\<close>); other tokens pass by.
\<close>

datatype 'd xml_token = DocumentElement "'d option" | OtherXml

text \<open>\<open>NewBatch\<close> copies the documents into a slice of its own, so a batch of Genios
  keeps its items.\<close>

definition NewBatch :: "'d list \<Rightarrow> 'd Batcher" where
  "NewBatch docs = \<lparr>Items = docs\<rparr>"

fun Genios_loop ::
  "nat \<Rightarrow> 'd xml_token list \<Rightarrow> 'd list \<Rightarrow> nat \<Rightarrow> 'd Batcher list \<Rightarrow> 'd Batcher sent" where
  "Genios_loop B [] docs i ch = Closed (ch @ [NewBatch docs])"
| "Genios_loop B (OtherXml # ts) docs i ch = Genios_loop B ts docs i ch"
| "Genios_loop B (DocumentElement None # ts) docs i ch = Fatal ch"
| "Genios_loop B (DocumentElement (Some doc) # ts) docs i ch =
     (if i + 1 = B
      then Genios_loop B ts [] 0 (ch @ [NewBatch (docs @ [doc])])
      else Genios_loop B ts (docs @ [doc]) (i + 1) ch)"

definition Genios_batches :: "nat \<Rightarrow> 'd xml_token list \<Rightarrow> 'd Batcher sent" where
  "Genios_batches B ts = Genios_loop B ts [] 0 []"

text \<open>\<open>batchSize = 2000\<close> and \<open>func (s Genios) Iterate\<close>.\<close>

definition genios_batchSize :: nat where
  "genios_batchSize = 2000"

definition Genios_Iterate :: "'d xml_token list \<Rightarrow> 'd Batcher sent" where
  "Genios_Iterate ts = Genios_batches genios_batchSize ts"

text \<open>The documents of a token list, and whether every one of them decodes.\<close>

fun documents_of :: "'d xml_token list \<Rightarrow> 'd list" where
  "documents_of [] = []"
| "documents_of (DocumentElement (Some doc) # ts) = doc # documents_of ts"
| "documents_of (t # ts) = documents_of ts"

fun decodes_all :: "'d xml_token list \<Rightarrow> bool" where
  "decodes_all [] = True"
| "decodes_all (DocumentElement None # ts) = False"
| "decodes_all (t # ts) = decodes_all ts"

text \<open>
  What the loop of Genios computes, as a function of the items: full groups of \<open>B\<close>
  items, then the rest, which may be empty. The batches of Crossref have the item counts
  of these groups.
\<close>

function chunks :: "nat \<Rightarrow> 'a list \<Rightarrow> 'a list list" where
  "chunks B xs = (if B = 0 \<or> length xs < B then [xs] else take B xs # chunks B (drop B xs))"
  by pat_completeness auto
termination
  by (relation "measure (\<lambda>(B, xs). length xs)") auto

declare chunks.simps [simp del]

text \<open>The item counts of these groups, for a number of items.\<close>

definition chunk_lens :: "nat \<Rightarrow> nat \<Rightarrow> nat list" where
  "chunk_lens B N = map length (chunks B (replicate N ()))"

section \<open>More of the standard library\<close>

text \<open>\<open>strings.Replace(s, old, new, n)\<close> for a non-empty \<open>old\<close>: the first \<open>n\<close>
  occurrences from the left, all of them when \<open>n\<close> is negative.\<close>

fun Replace :: "string \<Rightarrow> string \<Rightarrow> int \<Rightarrow> string \<Rightarrow> string" where
  "Replace old new n [] = []"
| "Replace old new n (c # cs) =
     (if n \<noteq> 0 \<and> old \<noteq> [] \<and> prefix old (c # cs)
      then new @ Replace old new (n - 1) (drop (length old - 1) cs)
      else c # Replace old new n cs)"

text \<open>\<open>strings.FieldsFunc(s, f)\<close>: the maximal runs of bytes that \<open>f\<close> rejects. The
  separators of the repository are ASCII, so bytes and runes split alike.\<close>

fun fields_from :: "(char \<Rightarrow> bool) \<Rightarrow> string \<Rightarrow> string \<Rightarrow> string list" where
  "fields_from f cur [] = (if cur = [] then [] else [cur])"
| "fields_from f cur (c # cs) =
     (if f c then (if cur = [] then fields_from f [] cs else cur # fields_from f [] cs)
      else fields_from f (cur @ [c]) cs)"

definition FieldsFunc :: "string \<Rightarrow> (char \<Rightarrow> bool) \<Rightarrow> string list" where
  "FieldsFunc s f = fields_from f [] s"

text \<open>\<open>strings.Split(s, sep)\<close> for a separator of one byte.\<close>

fun Split :: "string \<Rightarrow> char \<Rightarrow> string list" where
  "Split [] sep = [[]]"
| "Split (c # cs) sep =
     (if c = sep then [] # Split cs sep
      else (c # hd (Split cs sep)) # tl (Split cs sep))"


definition encodeURL :: string where
  "encodeURL = ''ABCDEFGHIJKLMNOPQRSTUVWXYZabcdefghijklmnopqrstuvwxyz0123456789-_''"

fun EncodeToString :: "string \<Rightarrow> bool \<Rightarrow> string \<Rightarrow> string" where
  "EncodeToString al pad [] = []"
| "EncodeToString al pad [a] =
     [al ! (of_char a div 4), al ! (of_char a mod 4 * 16)] @ (if pad then ''=='' else [])"
| "EncodeToString al pad [a, b] =
     [al ! (of_char a div 4), al ! (of_char a mod 4 * 16 + of_char b div 16),
      al ! (of_char b mod 16 * 4)] @ (if pad then ''='' else [])"
| "EncodeToString al pad (a # b # c # rest) =
     [al ! (of_char a div 4), al ! (of_char a mod 4 * 16 + of_char b div 16),
      al ! (of_char b mod 16 * 4 + of_char c div 64), al ! (of_char c mod 64)]
     @ EncodeToString al pad rest"


definition RawURLEncoding_EncodeToString :: "string \<Rightarrow> string" where
  "RawURLEncoding_EncodeToString s = EncodeToString encodeURL False s"

subsection \<open>Package time: dates\<close>

text \<open>
  The repository parses dates with the layouts \<open>2006\<close> and \<open>20060102\<close> and prints them
  with \<open>2006-01-02\<close>; a \<open>time.Time\<close> made this way is a calendar date at midnight UTC.
  \<open>time.Parse\<close> wants exactly the digits of the layout: four for the year, two for the
  month and for the day, a month from 1 to 12, a day that the month has, and nothing after
  them. A year alone is the first of January. Its error is a \<open>*time.ParseError\<close>, kept
  here with the layout and the text.
\<close>

record Time =
  year :: int
  month :: nat
  day :: nat

datatype time_error = ParseError string string

definition zero_Time :: Time where
  "zero_Time = \<lparr>year = 1, month = 1, day = 1\<rparr>"

definition isLeap :: "int \<Rightarrow> bool" where
  "isLeap y = (y mod 4 = 0 \<and> (y mod 100 \<noteq> 0 \<or> y mod 400 = 0))"

definition daysIn :: "nat \<Rightarrow> int \<Rightarrow> nat" where
  "daysIn m y =
     (if m = 2 then (if isLeap y then 29 else 28)
      else if m = 4 \<or> m = 6 \<or> m = 9 \<or> m = 11 then 30 else 31)"

definition Parse_2006 :: "string \<Rightarrow> time_error + Time" where
  "Parse_2006 s =
     (if length s = 4 \<and> list_all is_digit s
      then Inr \<lparr>year = int (digits_val s), month = 1, day = 1\<rparr>
      else Inl (ParseError ''2006'' s))"

definition Parse_20060102 :: "string \<Rightarrow> time_error + Time" where
  "Parse_20060102 s =
     (let y = int (digits_val (take 4 s));
          m = digits_val (take 2 (drop 4 s));
          d = digits_val (drop 6 s)
      in if length s = 8 \<and> list_all is_digit s \<and> 1 \<le> m \<and> m \<le> 12 \<and> 1 \<le> d \<and> d \<le> daysIn m y
         then Inr \<lparr>year = y, month = m, day = d\<rparr>
         else Inl (ParseError ''20060102'' s))"

text \<open>\<open>t.Format("2006-01-02")\<close>, for a year from 0 to 9999 (every parsed year is one,
  and so is the year 1 of the zero time).\<close>

definition pad_digits :: "nat \<Rightarrow> nat \<Rightarrow> string" where
  "pad_digits w n = replicate (w - length (nat_digits n)) (CHR ''0'') @ nat_digits n"

definition Format_2006_01_02 :: "Time \<Rightarrow> string" where
  "Format_2006_01_02 t =
     pad_digits 4 (nat (year t)) @ ''-'' @ pad_digits 2 (month t) @ ''-'' @ pad_digits 2 (day t)"

section \<open>The intermediate schema\<close>

text \<open>
  Modelled from the spec: the type \<open>finc.IntermediateSchema\<close>, \<open>finc.Author\<close>,
  \<open>finc.NewIntermediateSchema\<close> and the error \<open>span.Skip\<close> are declared in packages that
  are not among the sources. The record has the fields that the adapters below assign, a
  fresh record has the zero value in each of them, and a \<open>Skip\<close> carries its reason. The
  reason is a text, or the text of an error (\<open>err.Error()\<close>), which is kept as the error.
\<close>

record Author =
  Name :: string

record IntermediateSchema =
  Abstract :: string
  ArticleTitle :: string
  Authors :: "Author list"
  BookTitle :: string
  Date :: Time
  DOI :: string
  EndPage :: string
  Format :: string
  Fulltext :: string
  Genre :: string
  ID :: string
  ISSN :: "string list"
  Issue :: string
  JournalTitle :: string
  Languages :: "string list"
  MegaCollections :: "string list"
  OpenAccess :: bool
  PageCount :: string
  Packages :: "string list"
  Publishers :: "string list"
  RawDate :: string
  RecordID :: string
  RefType :: string
  SourceID :: string
  StartPage :: string
  Subjects :: "string list"
  URL :: "string list"
  Volume :: string

definition NewIntermediateSchema :: IntermediateSchema where
  "NewIntermediateSchema =
     \<lparr>Abstract = [], ArticleTitle = [], Authors = [], BookTitle = [], Date = zero_Time,
      DOI = [], EndPage = [], Format = [], Fulltext = [], Genre = [], ID = [], ISSN = [],
      Issue = [], JournalTitle = [], Languages = [], MegaCollections = [], OpenAccess = False,
      PageCount = [], Packages = [], Publishers = [], RawDate = [], RecordID = [],
      RefType = [], SourceID = [], StartPage = [], Subjects = [], URL = [], Volume = []\<rparr>"

datatype reason = Literal string | ErrorText time_error

datatype conversion_error = Skip reason | TimeError time_error

section \<open>Package genderopen\<close>

text \<open>The record of an OAI response; a nested element with only character data is the
  string of its \<open>Text\<close>, and a field is named by its path.\<close>

record Record =
  Header_Status :: string
  Header_Identifier :: string
  Header_Datestamp :: string
  Header_SetSpec :: "string list"
  Dc_Title :: string
  Dc_Creator :: "string list"
  Dc_Contributor :: "string list"
  Dc_Subject :: "string list"
  Dc_Date :: string
  Dc_Type :: "string list"
  Dc_Identifier :: "string list"
  Dc_Language :: string
  Dc_Rights :: "string list"
  Dc_Format :: string
  Dc_Publisher :: "string list"
  Dc_Source :: string
  Dc_Description :: "string list"

text \<open>
  \<open>bookTitlePattern = regexp.MustCompile(`([^:]*):([^\(]*)`)\<close>. The first group cannot
  hold a colon, so a match starts at the beginning of the text and its first group ends at
  the first colon; the second group runs to the first opening parenthesis or to the end.
  Without a colon there is no match.
\<close>

definition bookTitlePattern_FindStringSubmatch :: "string \<Rightarrow> string list" where
  "bookTitlePattern_FindStringSubmatch s =
     (if CHR '':'' \<in> set s
      then (let g1 = takeWhile (\<lambda>c. c \<noteq> CHR '':'') s;
                g2 = takeWhile (\<lambda>c. c \<noteq> CHR ''('') (tl (dropWhile (\<lambda>c. c \<noteq> CHR '':'') s))
            in [g1 @ '':'' @ g2, g1, g2])
      else [])"

text \<open>\<open>func (r *Record) BookTitle() string\<close>.\<close>

definition BookTitle_of :: "Record \<Rightarrow> string" where
  "BookTitle_of r =
     (let s = Replace [CHR 0x0A] '' '' (- 2) (Dc_Source r);
          matches = bookTitlePattern_FindStringSubmatch s
      in if length matches = 3 then TrimSpace (matches ! 2) else s)"

text \<open>
  \<open>parsePages\<close> compiles \<open>([1-9][0-9]*)-([1-9][0-9]*)\<close> and takes the first match. A
  match at a position is a digit from 1 to 9, the digits that follow it, a hyphen, a digit
  from 1 to 9 and the digits that follow it: both groups are greedy, and a shorter first
  group would be followed by a digit, not by the hyphen. \<open>FindStringSubmatch\<close> returns
  the match at the leftmost position that has one.
\<close>

definition is_nonzero_digit :: "char \<Rightarrow> bool" where
  "is_nonzero_digit c = (49 \<le> (of_char c :: nat) \<and> (of_char c :: nat) \<le> 57)"

definition match_pages_here :: "string \<Rightarrow> (string \<times> string) option" where
  "match_pages_here s =
     (case s of
        [] \<Rightarrow> None
      | c # r \<Rightarrow>
          if \<not> is_nonzero_digit c then None
          else (case dropWhile is_digit r of
                  d # f # t \<Rightarrow>
                    if d = CHR ''-'' \<and> is_nonzero_digit f
                    then Some (c # takeWhile is_digit r, f # takeWhile is_digit t)
                    else None
                | _ \<Rightarrow> None))"

fun find_pages :: "string \<Rightarrow> (string \<times> string) option" where
  "find_pages [] = None"
| "find_pages (c # cs) =
     (case match_pages_here (c # cs) of
        Some m \<Rightarrow> Some m
      | None \<Rightarrow> find_pages cs)"

definition p_FindStringSubmatch :: "string \<Rightarrow> string list" where
  "p_FindStringSubmatch s =
     (case find_pages s of
        None \<Rightarrow> []
      | Some (ss, es) \<Rightarrow> [ss @ ''-'' @ es, ss, es])"

text \<open>\<open>func parsePages(s string) (start, end, total string)\<close>. The errors of
  \<open>strconv.Atoi\<close> are dropped and its values used.\<close>

definition parsePages :: "string \<Rightarrow> string \<times> string \<times> string" where
  "parsePages s =
     (let match = p_FindStringSubmatch s in
      if length match < 3 then ([], [], [])
      else (let ss = match ! 1; es = match ! 2;
                u = fst (Atoi ss); v = fst (Atoi es)
            in (ss, es, itoa (wrap64 (v - u)))))"

text \<open>The text of a positive whole number as a group of the pattern matches it: digits,
  the first of them not 0.\<close>

definition page_number :: "string \<Rightarrow> bool" where
  "page_number ds = (ds \<noteq> [] \<and> is_nonzero_digit (hd ds) \<and> list_all is_digit ds)"

text \<open>\<open>stringsContainsAny\<close>: whether \<open>v\<close> equals one of \<open>vals\<close>, ignoring case.\<close>

definition stringsContainsAny :: "'a env_scheme \<Rightarrow> string \<Rightarrow> string list \<Rightarrow> bool" where
  "stringsContainsAny e v vals = list_ex (\<lambda>vv. ToLower e v = ToLower e vv) vals"

text \<open>\<open>func (record Record) ToIntermediateSchema() (*finc.IntermediateSchema, error)\<close>
  returns the output and an error; \<open>None\<close> is the nil error. First the loop over the
  identifiers, then the function.\<close>

definition add_identifier :: "string \<Rightarrow> IntermediateSchema \<Rightarrow> IntermediateSchema" where
  "add_identifier v output =
     (let o1 = (if prefix ''http'' v then output\<lparr>URL := URL output @ [v]\<rparr> else output);
          o2 = (if prefix ''urn:ISSN:'' v
                then o1\<lparr>ISSN := ISSN o1 @ [Replace ''urn:ISSN:'' [] 1 v]\<rparr> else o1)
      in if prefix ''http://dx.doi.org/'' v
         then o2\<lparr>DOI := Replace ''http://dx.doi.org/'' [] (- 1) v\<rparr> else o2)"

definition genderopen_ToIntermediateSchema ::
  "'a env_scheme \<Rightarrow> Record \<Rightarrow> IntermediateSchema \<times> conversion_error option" where
  "genderopen_ToIntermediateSchema e record =
     (let encodedRecordID = RawURLEncoding_EncodeToString (Header_Identifier record);
          o1 = NewIntermediateSchema
                 \<lparr>SourceID := ''162'', RecordID := encodedRecordID,
                  ID := ''ai-'' @ ''162'' @ ''-'' @ encodedRecordID\<rparr>;
          o2 = o1\<lparr>MegaCollections := MegaCollections o1 @ [''Gender Open''],
                  Genre := ''article'', RefType := ''EJOUR'', Format := ''ElectronicArticle'',
                  Languages := [Dc_Language record], ArticleTitle := Dc_Title record\<rparr>;
          o3 = o2\<lparr>Authors := Authors o2 @ map (\<lambda>v. \<lparr>Name = v\<rparr>) (Dc_Creator record)\<rparr>;
          o4 = fold add_identifier (Dc_Identifier record) o3;
          o5 = (if stringsContainsAny e (ArticleTitle o4) [''zeitschrift'', ''journal'']
                   \<or> length (ISSN o4) > 0
                then o4\<lparr>JournalTitle := Dc_Source record\<rparr>
                else o4\<lparr>BookTitle := BookTitle_of record\<rparr>);
          o6 = o5\<lparr>Publishers := Publishers o5 @ Dc_Publisher record\<rparr>
      in if Dc_Date record = [] then (o6, Some (Skip (Literal ''empty date'')))
         else if length (Dc_Date record) < 4 then (o6, Some (Skip (Literal ''short date'')))
         else (case Parse_2006 (take 4 (Dc_Date record)) of
                 Inl err \<Rightarrow> (o6, Some (TimeError err))
               | Inr date \<Rightarrow>
                   (let o7 = o6\<lparr>Date := date, RawDate := Format_2006_01_02 date\<rparr>;
                        o8 = o7\<lparr>Subjects := Subjects o7 @ Dc_Subject record\<rparr>;
                        pages = parsePages (Dc_Source record)
                    in (o8\<lparr>StartPage := fst pages, EndPage := fst (snd pages),
                            PageCount := snd (snd pages), OpenAccess := True\<rparr>, None))))"

section \<open>Package crossref: identifiers and pages\<close>

text \<open>Of the crossref document, the fields that the functions below read.\<close>

record crossref_Document =
  DOI :: string
  Page :: string
  URL :: string

record PageInfo =
  RawMessage :: string
  StartPage :: int
  EndPage :: int

text \<open>\<open>func (pi *PageInfo) PageCount() int\<close>.\<close>

definition PageCount_of :: "PageInfo \<Rightarrow> int" where
  "PageCount_of pi =
     (if PageInfo.StartPage pi \<noteq> 0 \<and> PageInfo.EndPage pi \<noteq> 0
      then (let count = wrap64 (PageInfo.EndPage pi - PageInfo.StartPage pi) in
            if count > 0 then count else 0)
      else 0)"


text \<open>\<open>func (doc *Document) PageInfo() PageInfo\<close>.\<close>

definition PageInfo_of :: "crossref_Document \<Rightarrow> PageInfo" where
  "PageInfo_of doc =
     (let pi = \<lparr>RawMessage = Page doc, StartPage = 0, EndPage = 0\<rparr>;
          parts = Split (Page doc) (CHR ''-'')
      in if length parts \<noteq> 2 then pi
         else (case Atoi (parts ! 0) of
                 (spage, Some err) \<Rightarrow> pi
               | (spage, None) \<Rightarrow>
                   (case Atoi (parts ! 1) of
                      (epage, Some err) \<Rightarrow> pi\<lparr>PageInfo.StartPage := spage\<rparr>
                    | (epage, None) \<Rightarrow> pi\<lparr>PageInfo.StartPage := spage, PageInfo.EndPage := epage\<rparr>)))"

section \<open>Package genios\<close>

record Document =
  ID :: string
  DB :: string
  IDNAME :: string
  ISSN :: string
  Source :: string
  PublicationTitle :: string
  Title :: string
  Year :: string
  RawDate :: string
  Volume :: string
  Issue :: string
  RawAuthors :: "string list"
  Language :: string
  Abstract :: string
  Descriptors :: string
  Text :: string
  Modules :: "string list"

text \<open>\<open>rawDateReplacer = strings.NewReplacer(`"`, "", "\n", "", "\t", "")\<close>.\<close>

definition rawDateReplacer_Replace :: "string \<Rightarrow> string" where
  "rawDateReplacer_Replace s =
     filter (\<lambda>c. c \<noteq> CHR 0x22 \<and> c \<noteq> CHR 0x0A \<and> c \<noteq> CHR 0x09) s"

text \<open>\<open>yearPattern = regexp.MustCompile(`[12][0-9][0-9][0-9]`)\<close>; \<open>MatchString\<close> looks
  for the pattern anywhere in the text.\<close>

fun yearPattern_MatchString :: "string \<Rightarrow> bool" where
  "yearPattern_MatchString [] = False"
| "yearPattern_MatchString (c # cs) =
     (((c = CHR ''1'' \<or> c = CHR ''2'') \<and> 3 \<le> length cs \<and> list_all is_digit (take 3 cs))
      \<or> yearPattern_MatchString cs)"

text \<open>\<open>func (doc Document) Headings() []string\<close>.\<close>

definition Headings :: "Document \<Rightarrow> string list" where
  "Headings doc =
     (let fields = FieldsFunc (Descriptors doc) (\<lambda>r. r = CHR '';'' \<or> r = CHR ''/'');
          fields' = (if length fields = 1
                     then FieldsFunc (Descriptors doc) (\<lambda>r. r = CHR '','')
                     else fields)
      in map TrimSpace fields')"

text \<open>\<open>func (doc Document) Date() (time.Time, error)\<close>.\<close>

definition genios_Date :: "Document \<Rightarrow> time_error + Time" where
  "genios_Date doc =
     (let rawYear = TrimSpace (rawDateReplacer_Replace (Year doc)) in
      if yearPattern_MatchString rawYear then Parse_2006 rawYear
      else (let raw = TrimSpace (rawDateReplacer_Replace (RawDate doc));
                raw' = (if length raw > 8 then take 8 raw else raw)
            in Parse_20060102 raw'))"

text \<open>\<open>SourceAndID\<close>, \<open>URL\<close>, \<open>isNomenNescio\<close> and \<open>stringContainsAny\<close>.\<close>

definition SourceAndID :: "Document \<Rightarrow> string" where
  "SourceAndID doc = TrimSpace (Source doc) @ ''__'' @ TrimSpace (Document.ID doc)"

definition genios_URL :: "Document \<Rightarrow> string" where
  "genios_URL doc = ''https://www.wiso-net.de/document/'' @ SourceAndID doc"

definition isNomenNescio :: "'a env_scheme \<Rightarrow> string \<Rightarrow> bool" where
  "isNomenNescio e s = (let t = ToLower e (TrimSpace s) in t = ''n.n.'' \<or> t = [])"

definition stringContainsAny :: "string \<Rightarrow> string list \<Rightarrow> bool" where
  "stringContainsAny s needles = list_ex (\<lambda>n. sublist n s) needles"

text \<open>\<open>func (doc Document) Authors() (authors []finc.Author)\<close>, with
  \<open>minAuthorLength = 4\<close> and \<open>maxAuthorLength = 200\<close>.\<close>

definition clues :: "string list" where
  "clues = [''www.'', ''http:'', ''&quot'', ''part 1 of'', ''part 2 of'',
            ''Copyright'', ''(c)'', ''All rights reserved'', ''he said'']"

definition genios_Authors :: "'a env_scheme \<Rightarrow> Document \<Rightarrow> Author list" where
  "genios_Authors e doc =
     concat (map (\<lambda>s.
       [\<lparr>Name = TrimSpace f\<rparr>.
          f \<leftarrow> FieldsFunc s (\<lambda>r. if length s > 60
                                then r = CHR '';'' \<or> r = CHR ''/'' \<or> r = CHR '',''
                                else r = CHR '';'' \<or> r = CHR ''/''),
          \<not> isNomenNescio e f,
          \<not> length (TrimSpace f) < 4,
          \<not> stringContainsAny (TrimSpace f) clues,
          length (TrimSpace f) < 200])
       (RawAuthors doc))"

text \<open>\<open>ISSNList\<close>, \<open>FincID\<close> and \<open>Languages\<close>, with
  \<open>acceptedLanguages = container.NewStringSet("deu", "eng")\<close>.\<close>

definition ISSNList :: "'a env_scheme \<Rightarrow> Document \<Rightarrow> string list" where
  "ISSNList e doc = StringSet_Values e (ISSNPattern_FindAllString e (Document.ISSN doc))"

definition FincID :: "Document \<Rightarrow> string" where
  "FincID doc = ''ai-'' @ ''48'' @ ''-'' @ RawURLEncoding_EncodeToString (SourceAndID doc)"

definition genios_Languages :: "'a env_scheme \<Rightarrow> Document \<Rightarrow> string list" where
  "genios_Languages e doc =
     StringSet_Values e
       [lang. s \<leftarrow> [Title doc, Text doc], \<not> length s < 20,
              lang \<leftarrow> (case DetectLang3 e s of None \<Rightarrow> [] | Some l \<Rightarrow> [l]),
              lang = ''deu'' \<or> lang = ''eng'', lang \<noteq> ''und'']"

text \<open>
  \<open>func (doc Document) ToIntermediateSchema() (*finc.IntermediateSchema, error)\<close>, with
  \<open>textAsAbstractCutoff = 200\<close> and \<open>maxTitleLength = 2048\<close>. \<open>dbmap.LookupDefault\<close>
  gives the empty list for a database that the asset does not name, and
  \<open>sort.Sort(sort.Reverse(sort.StringSlice(...)))\<close> puts the names in descending order of
  their bytes. The call of \<open>log.Printf\<close> only writes to the log.
\<close>

definition genios_ToIntermediateSchema ::
  "'a env_scheme \<Rightarrow> Document \<Rightarrow> IntermediateSchema \<times> conversion_error option" where
  "genios_ToIntermediateSchema e doc =
     (let output = NewIntermediateSchema in
      case genios_Date doc of
        Inl err \<Rightarrow> (output\<lparr>Date := zero_Time\<rparr>, Some (Skip (ErrorText err)))
      | Inr date \<Rightarrow>
          (let o1 = output\<lparr>Date := date, IntermediateSchema.RawDate := Format_2006_01_02 date\<rparr>;
               o2 = o1\<lparr>Authors := genios_Authors e doc,
                       IntermediateSchema.URL := IntermediateSchema.URL o1 @ [genios_URL doc]\<rparr>;
               o3 = (if isNomenNescio e (Abstract doc)
                     then o2\<lparr>IntermediateSchema.Abstract :=
                               TrimSpace (take (min (length (Text doc)) 200) (Text doc))\<rparr>
                     else o2\<lparr>IntermediateSchema.Abstract := TrimSpace (Abstract doc)\<rparr>);
               o4 = o3\<lparr>ArticleTitle := TrimSpace (Title doc)\<rparr>
           in if length (ArticleTitle o4) > 2048
              then (o4, Some (Skip (Literal (''article title too long: ''
                                      @ itoa (int (length (ArticleTitle o4)))))))
              else
                (let o5 = o4\<lparr>JournalTitle :=
                              Replace [CHR 0x0A] '' '' (- 1) (TrimSpace (PublicationTitle doc)),
                            IntermediateSchema.ISSN := ISSNList e doc\<rparr>;
                     o6 = (if \<not> isNomenNescio e (Issue doc)
                           then o5\<lparr>IntermediateSchema.Issue := TrimSpace (Issue doc)\<rparr> else o5);
                     o7 = (if \<not> isNomenNescio e (Volume doc)
                           then o6\<lparr>IntermediateSchema.Volume := TrimSpace (Volume doc)\<rparr> else o6);
                     o8 = o7\<lparr>Fulltext := Text doc, Format := ''ElectronicArticle'',
                             Genre := ''article'', Languages := genios_Languages e doc\<rparr>;
                     packageNames = (case dbmap e (DB doc) of None \<Rightarrow> [] | Some names \<Rightarrow> names);
                     prefixedPackageNames =
                       rev (sort (map (\<lambda>name. ''Genios ('' @ name @ '')'') packageNames));
                     o9 = o8\<lparr>Packages := [DB doc] @ prefixedPackageNames @ Modules doc\<rparr>;
                     o10 = (if length prefixedPackageNames > 0
                            then o9\<lparr>MegaCollections := [prefixedPackageNames ! 0]\<rparr>
                            else o9\<lparr>MegaCollections := [''Genios'']\<rparr>);
                     id = FincID doc
                 in if length id > KeyLengthLimit e
                    then (o10, Some (Skip (Literal (''id too long: '' @ id))))
                    else (o10\<lparr>IntermediateSchema.ID := id, RecordID := Document.ID doc,
                              SourceID := ''48'', Subjects := Headings doc,
                              RefType := ''EJOUR''\<rparr>, None))))"

text \<open>An environment for the examples: no Unicode mapping, no package table, no detected
  language, no ISSN found, the distinct values of a set, and the key length
  limit 250 that the comment in \<open>ToIntermediateSchema\<close> names.\<close>

definition example_env :: env where
  "example_env =
     \<lparr>unicode_ToUpper = (\<lambda>s. s), unicode_ToLower = (\<lambda>s. s), KeyLengthLimit = 250,
      dbmap = (\<lambda>db. None), DetectLang3 = (\<lambda>s. None),
      ISSNPattern_FindAllString = (\<lambda>s. []), StringSet_Values = remdups\<rparr>"

text \<open>A record and a document with every field empty, for the examples.\<close>

definition example_Record :: Record where
  "example_Record =
     \<lparr>Header_Status = [], Header_Identifier = [], Header_Datestamp = [], Header_SetSpec = [],
      Dc_Title = [], Dc_Creator = [], Dc_Contributor = [], Dc_Subject = [], Dc_Date = [],
      Dc_Type = [], Dc_Identifier = [], Dc_Language = [], Dc_Rights = [], Dc_Format = [],
      Dc_Publisher = [], Dc_Source = [], Dc_Description = []\<rparr>"

definition example_Document :: Document where
  "example_Document =
     \<lparr>ID = [], DB = [], IDNAME = [], ISSN = [], Source = [], PublicationTitle = [], Title = [],
      Year = [], RawDate = [], Volume = [], Issue = [], RawAuthors = [], Language = [],
      Abstract = [], Descriptors = [], Text = [], Modules = []\<rparr>"

section \<open>Theorems\<close>

lemma match_digits_Some:
  "match_digits n s = Some r \<longleftrightarrow>
     n \<le> length s \<and> list_all is_digit (take n s) \<and> r = drop n s"
proof (induction n s rule: match_digits.induct)
  case (1 s)
  show ?case by auto
next
  case (2 n)
  show ?case by simp
next
  case (3 n c cs)
  then show ?case by auto
qed

lemma pattern_Match_iff:
  "pattern_Match t \<longleftrightarrow>
     length t = 8 \<and> list_all is_digit (take 7 t) \<and> (is_digit (t ! 7) \<or> t ! 7 = CHR ''X'')"
proof (cases "match_digits 7 t")
  case None
  then have "\<not> (7 \<le> length t \<and> list_all is_digit (take 7 t))"
    using match_digits_Some [of 7 t "drop 7 t"] by auto
  with None show ?thesis by (auto simp: pattern_Match_def)
next
  case (Some r)
  then have r: "7 \<le> length t" "list_all is_digit (take 7 t)" "r = drop 7 t"
    using match_digits_Some [of 7 t r] by auto
  show ?thesis
  proof (cases "length t = 8")
    case True
    have "drop 7 t = t ! 7 # drop (Suc 7) t"
      using True Cons_nth_drop_Suc [of 7 t] by simp
    then have "drop 7 t = [t ! 7]"
      using True by simp
    with Some r True show ?thesis by (simp add: pattern_Match_def)
  next
    case False
    then have "length r \<noteq> 1" using r by auto
    then have "\<And>c. r \<noteq> [c]" by auto
    with Some False show ?thesis
      by (auto simp: pattern_Match_def split: list.splits)
  qed
qed

lemma Validate_None_iff:
  "Validate e s = None \<longleftrightarrow>
      (let t = TrimSpace (ToUpper e (replacer_Replace s)) in
       length t = 8 \<and> list_all is_digit (take 7 t) \<and> (is_digit (t ! 7) \<or> t ! 7 = CHR ''X''))"
  by (auto simp: Validate_def Let_def pattern_Match_iff)

text \<open>
  C9. \<open>Validate\<close> returns nil exactly when the string, with hyphens and spaces removed,
  upper-cased and trimmed, has 8 bytes: 7 digits and then a digit or \<open>X\<close>. Its only
  error is \<open>ErrInvalidISSN\<close>. The check digit is not verified: \<open>1234-5678\<close> validates,
  although its check digit would have to be 9.
\<close>

theorem Validate_syntactic_only:
  "(Validate e s = None \<longleftrightarrow>
      (let t = TrimSpace (ToUpper e (replacer_Replace s)) in
       length t = 8 \<and> list_all is_digit (take 7 t) \<and> (is_digit (t ! 7) \<or> t ! 7 = CHR ''X'')))
   \<and> (Validate e s = None \<or> Validate e s = Some ErrInvalidISSN)
   \<and> Validate e ''1234-5678'' = None
   \<and> \<not> issn_check_digit_ok ''12345678''
   \<and> issn_check_digit_ok ''12345679''"
proof -
  have b: "Validate e s = None \<or> Validate e s = Some ErrInvalidISSN"
    by (simp add: Validate_def Let_def)
  have t: "TrimSpace (ToUpper e (replacer_Replace ''1234-5678'')) = ''12345678''"
    by (simp add: TrimSpace_def ToUpper_def replacer_Replace_def is_ascii_def ascii_upper_def
        lead_width_def space_runes_def)
  have c: "Validate e ''1234-5678'' = None"
    by (simp add: Validate_None_iff t is_digit_def)
  have d: "\<not> issn_check_digit_ok ''12345678''"
    by (simp add: issn_check_digit_ok_def digit_val_def)
  have d': "issn_check_digit_ok ''12345679''"
    by (simp add: issn_check_digit_ok_def digit_val_def)
  from Validate_None_iff [of e s] b c d d' show ?thesis by blast
qed

subsection \<open>Delays\<close>

lemma is_digit_not_sign: "is_digit c \<Longrightarrow> c \<noteq> CHR ''-'' \<and> c \<noteq> CHR ''+'' \<and> c \<noteq> CHR ''.''"
  by (auto simp: is_digit_def)

lemma takeWhile_digits_then:
  "list_all is_digit ds \<Longrightarrow> \<not> is_digit c \<Longrightarrow> takeWhile is_digit (ds @ c # r) = ds"
  by (induction ds) auto

lemma dropWhile_digits_then:
  "list_all is_digit ds \<Longrightarrow> \<not> is_digit c \<Longrightarrow> dropWhile is_digit (ds @ c # r) = c # r"
  by (induction ds) auto

lemma wrap64_id: "0 \<le> x \<Longrightarrow> x < 2 ^ 63 \<Longrightarrow> wrap64 x = x"
  by (simp add: wrap64_def)

lemma parse_groups_Nil: "parse_groups d [] = Inr d"
  by (simp add: parse_groups.simps)

lemma parse_groups_hours:
  assumes ds: "list_all is_digit ds" "ds \<noteq> []" and m: "digits_val ds \<le> 2562047"
  shows "parse_groups 0 (ds @ ''h'') = Inr (int (digits_val ds) * hour)"
proof -
  have h: "\<not> is_digit (CHR ''h'')" by (simp add: is_digit_def)
  have hd: "is_digit (hd (ds @ ''h''))" using ds by (cases ds) auto
  have tw: "takeWhile is_digit (ds @ ''h'') = ds" using takeWhile_digits_then [OF ds(1) h] by simp
  have dw: "dropWhile is_digit (ds @ ''h'') = ''h''" using dropWhile_digits_then [OF ds(1) h] by simp
  have li: "leadingInt (ds @ ''h'') = Some (int (digits_val ds), ''h'')"
    using m by (simp add: leadingInt_def tw dw)
  have un: "takeWhile unit_char ''h'' = ''h''" "dropWhile unit_char ''h'' = []"
    by (simp_all add: unit_char_def is_digit_def)
  have um: "unitMap ''h'' = Some hour" by (simp add: unitMap_def)
  have b: "int (digits_val ds) * hour < 2 ^ 63" "0 \<le> int (digits_val ds) * hour"
    using m by (simp_all add: hour_def)
  have dv: "9223372036854775807 div hour = (2562047::int)" by (simp add: hour_def)
  have uc: "unit_char (CHR ''h'')" by (simp add: unit_char_def is_digit_def)
  have w: "wrap64 (int (digits_val ds) * hour) = int (digits_val ds) * hour"
    using b by (simp add: wrap64_id)
  show ?thesis
    apply (subst parse_groups.simps)
    using hd is_digit_not_sign [OF hd] m b
    apply (simp add: li un um dv w dw uc parse_groups_Nil)
    done
qed

lemma assign_all_apply:
  "assign_all ids item h k = (if k \<in> set ids then Some item else h k)"
  unfolding assign_all_def by (induction ids arbitrary: h) auto

lemma HoldingsMap_loop_apply:
  "HoldingsMap_loop ts h k =
     (case filter (\<lambda>x. k \<in> set (EISSN x) \<or> k \<in> set (PISSN x)) (holdings_of ts) of
        [] \<Rightarrow> h k | hs \<Rightarrow> Some (last hs))"
proof (induction ts h rule: HoldingsMap_loop.induct)
  case (1 h)
  show ?case by simp
next
  case (2 ts h)
  then show ?case by simp
next
  case (3 tag item ts h)
  show ?case
  proof (cases "tag = ''holding''")
    case False
    with 3 show ?thesis by simp
  next
    case True
    define h' where "h' = assign_all (PISSN item) item (assign_all (EISSN item) item h)"
    have h'k: "h' k = (if k \<in> set (EISSN item) \<or> k \<in> set (PISSN item) then Some item else h k)"
      by (simp add: h'_def assign_all_apply)
    have ih: "HoldingsMap_loop ts h' k =
       (case filter (\<lambda>x. k \<in> set (EISSN x) \<or> k \<in> set (PISSN x)) (holdings_of ts) of
          [] \<Rightarrow> h' k | hs \<Rightarrow> Some (last hs))"
      using 3(1) [OF True] by (simp only: h'_def)
    have "HoldingsMap_loop (StartElement tag item # ts) h k = HoldingsMap_loop ts h' k"
      using True by (simp add: h'_def)
    also note ih
    finally show ?thesis
      using True by (simp add: h'k split: list.splits)
  qed
qed


lemma digit_char_val: "d < 10 \<Longrightarrow> digit_val (digit_char d) = d \<and> is_digit (digit_char d)"
proof -
  assume "d < 10"
  then have "d \<in> {0,1,2,3,4,5,6,7,8,9}" by auto
  then show ?thesis
    by (auto simp: digit_char_def digit_val_def is_digit_def)
qed

lemma nat_digits_props:
  "list_all is_digit (nat_digits n) \<and> nat_digits n \<noteq> [] \<and> digits_val (nat_digits n) = n"
proof (induction n rule: nat_digits.induct)
  case (1 n)
  show ?case
  proof (cases "n < 10")
    case True
    then show ?thesis using digit_char_val [of n]
      by (simp add: nat_digits.simps [of n] digits_val_def)
  next
    case False
    then have ih: "list_all is_digit (nat_digits (n div 10))"
      "digits_val (nat_digits (n div 10)) = n div 10"
      using 1 by auto
    have m: "n mod 10 < 10" by simp
    show ?thesis using False ih digit_char_val [OF m]
      by (simp add: nat_digits.simps [of n] digits_val_def)
  qed
qed

lemma Atoi_digits:
  assumes "list_all is_digit ds" "ds \<noteq> []" "digits_val ds < 2 ^ 63"
  shows "Atoi ds = (int (digits_val ds), None)"
proof -
  have "is_digit (hd ds)" using assms by (cases ds) auto
  then have "hd ds \<noteq> CHR ''-''" "hd ds \<noteq> CHR ''+''" using is_digit_not_sign by auto
  moreover have "\<not> (2 ^ 63 \<le> int (digits_val ds))"
    using assms(3) by (metis of_nat_less_numeral_power_cancel_iff not_le)
  ultimately show ?thesis using assms by (simp add: Atoi_def Let_def)
qed

lemma ParseDuration_hours:
  assumes ds: "list_all is_digit ds" "ds \<noteq> []" and m: "digits_val ds \<le> 2562047"
  shows "ParseDuration (CHR ''-'' # ds @ ''h'') = Inr (- (int (digits_val ds) * hour))"
proof -
  have "length (ds @ ''h'') \<noteq> length ''0''" using ds(2) by (cases ds) auto
  then have "ds @ ''h'' \<noteq> ''0''" by metis
  then show ?thesis
    using parse_groups_hours [OF ds m] by (simp add: ParseDuration_def)
qed

lemma DelayPattern_match:
  assumes "list_all is_digit ds" "ds \<noteq> []" "u = CHR ''M'' \<or> u = CHR ''Y''"
  shows "DelayPattern_FindStringSubmatch (CHR ''-'' # ds @ [u]) = [CHR ''-'' # ds @ [u], ds, [u]]"
proof -
  have u: "\<not> is_digit u" using assms(3) by (auto simp: is_digit_def)
  have "takeWhile is_digit (ds @ [u]) = ds" "dropWhile is_digit (ds @ [u]) = [u]"
    using takeWhile_digits_then [OF assms(1) u, of "[]"] dropWhile_digits_then [OF assms(1) u, of "[]"]
    by simp_all
  then show ?thesis using assms by (simp add: DelayPattern_FindStringSubmatch_def)
qed

lemma DelayPattern_nomatch:
  "DelayPattern_FindStringSubmatch s = [] \<longleftrightarrow>
     \<not> (\<exists>ds u. s = CHR ''-'' # ds @ [u] \<and> ds \<noteq> [] \<and> list_all is_digit ds
            \<and> (u = CHR ''M'' \<or> u = CHR ''Y''))"
proof
  assume "DelayPattern_FindStringSubmatch s = []"
  then show "\<not> (\<exists>ds u. s = CHR ''-'' # ds @ [u] \<and> ds \<noteq> [] \<and> list_all is_digit ds
            \<and> (u = CHR ''M'' \<or> u = CHR ''Y''))"
    using DelayPattern_match by fastforce
next
  assume n: "\<not> (\<exists>ds u. s = CHR ''-'' # ds @ [u] \<and> ds \<noteq> [] \<and> list_all is_digit ds
            \<and> (u = CHR ''M'' \<or> u = CHR ''Y''))"
  show "DelayPattern_FindStringSubmatch s = []"
  proof (rule ccontr)
    assume "DelayPattern_FindStringSubmatch s \<noteq> []"
    then obtain r where s: "s = CHR ''-'' # r" and t: "takeWhile is_digit r \<noteq> []"
      and d: "dropWhile is_digit r = ''M'' \<or> dropWhile is_digit r = ''Y''"
      by (auto simp: DelayPattern_FindStringSubmatch_def split: list.splits if_splits)
    have "r = takeWhile is_digit r @ dropWhile is_digit r" by simp
    moreover have "list_all is_digit (takeWhile is_digit r)"
      by (simp add: list_all_iff) (meson set_takeWhileD)
    ultimately show False using n s t d by (metis)
  qed
qed

lemma DelayPattern_length:
  "length (DelayPattern_FindStringSubmatch s) = 3 \<longleftrightarrow> DelayPattern_FindStringSubmatch s \<noteq> []"
  by (auto simp: DelayPattern_FindStringSubmatch_def split: list.splits)

lemma ParseDelay_format_error:
  "ParseDelay s = Inl (UnknownFormat s) \<longleftrightarrow> DelayPattern_FindStringSubmatch s = []"
  by (auto simp: ParseDelay_def Let_def DelayPattern_length split: prod.splits option.splits)

lemma delay_hours:
  assumes ds: "list_all is_digit ds" "ds \<noteq> []" and m: "digits_val ds * k \<le> 2562047"
  shows "duration_of (ParseDuration (CHR ''-'' # itoa (wrap64 (int (digits_val ds) * int k)) @ ''h''))
           = - (int (digits_val ds) * int k * hour)"
proof -
  let ?n = "digits_val ds"
  have "int (?n * k) \<le> 2562047" using m by linarith
  then have w: "wrap64 (int ?n * int k) = int (?n * k)" by (simp add: wrap64_id)
  have i: "itoa (int (?n * k)) = nat_digits (?n * k)"
    unfolding itoa_def by (simp del: of_nat_mult)
  have p: "ParseDuration (CHR ''-'' # nat_digits (?n * k) @ ''h'') = Inr (- (int (?n * k) * hour))"
    using ParseDuration_hours [of "nat_digits (?n * k)"] nat_digits_props [of "?n * k"] m by simp
  show ?thesis
    unfolding w i p by (simp add: duration_of_def)
qed

lemma ParseDelay_unit:
  assumes ds: "list_all is_digit ds" "ds \<noteq> []" and m: "digits_val ds * k \<le> 2562047"
    and u: "(u = CHR ''M'' \<and> k = 720) \<or> (u = CHR ''Y'' \<and> k = 8760)"
  shows "ParseDelay (CHR ''-'' # ds @ [u]) = Inr (- (int (digits_val ds) * int k * hour))"
proof -
  let ?n = "digits_val ds"
  have k: "0 < k" using u by auto
  then have "?n \<le> ?n * k" by simp
  then have n: "?n \<le> 2562047" using m by linarith
  then have "?n < 2 ^ 63" by simp
  then have a: "Atoi ds = (int ?n, None)" using Atoi_digits ds by blast
  from u show ?thesis
  proof
    assume um: "u = CHR ''M'' \<and> k = 720"
    have ms: "DelayPattern_FindStringSubmatch (CHR ''-'' # ds @ ''M'') = [CHR ''-'' # ds @ ''M'', ds, ''M'']"
      using DelayPattern_match [OF ds, of "CHR ''M''"] by simp
    show ?thesis
      using um delay_hours [OF ds, of 720] m by (simp add: ParseDelay_def ms a)
  next
    assume uy: "u = CHR ''Y'' \<and> k = 8760"
    have ms: "DelayPattern_FindStringSubmatch (CHR ''-'' # ds @ ''Y'') = [CHR ''-'' # ds @ ''Y'', ds, ''Y'']"
      using DelayPattern_match [OF ds, of "CHR ''Y''"] by simp
    show ?thesis
      using uy delay_hours [OF ds, of 8760] m by (simp add: ParseDelay_def ms a)
  qed
qed

text \<open>
  C7, as amended. \<open>ParseDelay\<close> returns the format error exactly for the strings that are
  not a hyphen, one or more digits and \<open>M\<close> or \<open>Y\<close>. For a string of the grammar whose
  number \<open>n\<close> gives at most 2562047 hours (the longest whole number of hours a
  \<open>time.Duration\<close> holds), it returns \<open>-(n * 720)\<close> hours for \<open>M\<close> and
  \<open>-(n * 8760)\<close> hours for \<open>Y\<close>.
\<close>

theorem ParseDelay_grammar:
  "(ParseDelay s = Inl (UnknownFormat s) \<longleftrightarrow>
      \<not> (\<exists>ds u. s = CHR ''-'' # ds @ [u] \<and> ds \<noteq> [] \<and> list_all is_digit ds
            \<and> (u = CHR ''M'' \<or> u = CHR ''Y'')))
   \<and> (\<forall>ds. ds \<noteq> [] \<and> list_all is_digit ds \<and> digits_val ds * 720 \<le> 2562047 \<longrightarrow>
         ParseDelay (CHR ''-'' # ds @ ''M'') = Inr (- (int (digits_val ds) * 720 * hour)))
   \<and> (\<forall>ds. ds \<noteq> [] \<and> list_all is_digit ds \<and> digits_val ds * 8760 \<le> 2562047 \<longrightarrow>
         ParseDelay (CHR ''-'' # ds @ ''Y'') = Inr (- (int (digits_val ds) * 8760 * hour)))"
proof (intro conjI allI impI)
  show "ParseDelay s = Inl (UnknownFormat s) \<longleftrightarrow>
      \<not> (\<exists>ds u. s = CHR ''-'' # ds @ [u] \<and> ds \<noteq> [] \<and> list_all is_digit ds
            \<and> (u = CHR ''M'' \<or> u = CHR ''Y''))"
    by (simp only: ParseDelay_format_error DelayPattern_nomatch)
next
  fix ds assume "ds \<noteq> [] \<and> list_all is_digit ds \<and> digits_val ds * 720 \<le> 2562047"
  then show "ParseDelay (CHR ''-'' # ds @ ''M'') = Inr (- (int (digits_val ds) * 720 * hour))"
    using ParseDelay_unit [of ds 720 "CHR ''M''"] by simp
next
  fix ds assume "ds \<noteq> [] \<and> list_all is_digit ds \<and> digits_val ds * 8760 \<le> 2562047"
  then show "ParseDelay (CHR ''-'' # ds @ ''Y'') = Inr (- (int (digits_val ds) * 8760 * hour))"
    using ParseDelay_unit [of ds 8760 "CHR ''Y''"] by simp
qed

lemma not_delay_grammar:
  assumes "last s \<noteq> CHR ''M''" "last s \<noteq> CHR ''Y''"
  shows "\<not> (\<exists>ds u. s = CHR ''-'' # ds @ [u] \<and> ds \<noteq> [] \<and> list_all is_digit ds
            \<and> (u = CHR ''M'' \<or> u = CHR ''Y''))"
proof
  assume "\<exists>ds u. s = CHR ''-'' # ds @ [u] \<and> ds \<noteq> [] \<and> list_all is_digit ds
            \<and> (u = CHR ''M'' \<or> u = CHR ''Y'')"
  then obtain ds u where "s = CHR ''-'' # ds @ [u]" "u = CHR ''M'' \<or> u = CHR ''Y''" by blast
  then have "last s = CHR ''M'' \<or> last s = CHR ''Y''" by auto
  with assms show False by simp
qed

lemma not_delay_grammar_hd:
  assumes "hd s \<noteq> CHR ''-''"
  shows "\<not> (\<exists>ds u. s = CHR ''-'' # ds @ [u] \<and> ds \<noteq> [] \<and> list_all is_digit ds
            \<and> (u = CHR ''M'' \<or> u = CHR ''Y''))"
  using assms by auto

lemma digits_1: "digits_val ''1'' = 1 \<and> list_all is_digit ''1''"
  by (simp add: digits_val_def digit_val_def is_digit_def)

theorem ParseDelay_grammar_witness:
  "ParseDelay ''-1M'' = Inr (- (720 * hour))
   \<and> ParseDelay ''-1Y'' = Inr (- (8760 * hour))
   \<and> ParseDelay ''-1D'' = Inl (UnknownFormat ''-1D'')
   \<and> ParseDelay ''-111m'' = Inl (UnknownFormat ''-111m'')
   \<and> ParseDelay ''-1'' = Inl (UnknownFormat ''-1'')
   \<and> ParseDelay ''0.1M'' = Inl (UnknownFormat ''0.1M'')"
proof -
  have h: "''1'' \<noteq> [] \<and> list_all is_digit ''1'' \<and> digits_val ''1'' * 720 \<le> 2562047"
    "''1'' \<noteq> [] \<and> list_all is_digit ''1'' \<and> digits_val ''1'' * 8760 \<le> 2562047"
    using digits_1 by simp_all
  have m: "ParseDelay ''-1M'' = Inr (- (720 * hour))"
    using ParseDelay_grammar [THEN conjunct2, THEN conjunct1, rule_format, OF h(1)] digits_1
    by simp
  have y: "ParseDelay ''-1Y'' = Inr (- (8760 * hour))"
    using ParseDelay_grammar [THEN conjunct2, THEN conjunct2, rule_format, OF h(2)] digits_1
    by simp
  have d: "ParseDelay ''-1D'' = Inl (UnknownFormat ''-1D'')"
    by (rule iffD2 [OF ParseDelay_grammar [THEN conjunct1]], rule not_delay_grammar) simp_all
  have l: "ParseDelay ''-111m'' = Inl (UnknownFormat ''-111m'')"
    by (rule iffD2 [OF ParseDelay_grammar [THEN conjunct1]], rule not_delay_grammar) simp_all
  have o: "ParseDelay ''-1'' = Inl (UnknownFormat ''-1'')"
    by (rule iffD2 [OF ParseDelay_grammar [THEN conjunct1]], rule not_delay_grammar) simp_all
  have f: "ParseDelay ''0.1M'' = Inl (UnknownFormat ''0.1M'')"
    by (rule iffD2 [OF ParseDelay_grammar [THEN conjunct1]], rule not_delay_grammar_hd) simp
  from m y d l o f show ?thesis by blast
qed

lemma ParseDuration_too_long:
  assumes ds: "list_all is_digit ds" "ds \<noteq> []" and m: "2562047 < digits_val ds" "digits_val ds < 2 ^ 63"
  shows "ParseDuration (CHR ''-'' # ds @ ''h'') = Inl InvalidDuration"
proof -
  have h: "\<not> is_digit (CHR ''h'')" by (simp add: is_digit_def)
  have hd: "is_digit (hd (ds @ ''h''))" using ds by (cases ds) auto
  have tw: "takeWhile is_digit (ds @ ''h'') = ds" using takeWhile_digits_then [OF ds(1) h] by simp
  have dw: "dropWhile is_digit (ds @ ''h'') = ''h''" using dropWhile_digits_then [OF ds(1) h] by simp
  have "\<not> (2 ^ 63 - 1 < int (digits_val ds))"
    using m(2) by (metis of_nat_less_numeral_power_cancel_iff not_le zle_diff1_eq)
  then have li: "leadingInt (ds @ ''h'') = Some (int (digits_val ds), ''h'')"
    by (simp add: leadingInt_def tw dw)
  have un: "takeWhile unit_char ''h'' = ''h''" "dropWhile unit_char ''h'' = []"
    by (simp_all add: unit_char_def is_digit_def)
  have um: "unitMap ''h'' = Some hour" by (simp add: unitMap_def)
  have dv: "9223372036854775807 div hour = (2562047::int)" by (simp add: hour_def)
  have uc: "unit_char (CHR ''h'')" by (simp add: unit_char_def is_digit_def)
  have pg: "parse_groups 0 (ds @ ''h'') = Inl InvalidDuration"
    apply (subst parse_groups.simps)
    using hd is_digit_not_sign [OF hd] m
    apply (simp add: li un um dv dw uc)
    done
  have "length (ds @ ''h'') \<noteq> length ''0''" using ds(2) by (cases ds) auto
  then have "ds @ ''h'' \<noteq> ''0''" by metis
  then show ?thesis
    using pg by (simp add: ParseDuration_def)
qed

lemma digits_293: "digits_val ''293'' = 293 \<and> list_all is_digit ''293''"
  by (simp add: digits_val_def digit_val_def is_digit_def)

text \<open>
  The claim as stated fails for a long delay: \<open>-293Y\<close> is of the grammar, and the call
  succeeds, but with the duration 0. The 2566680 hours do not fit a \<open>time.Duration\<close>,
  \<open>time.ParseDuration\<close> returns 0 and an error, and \<open>ParseDelay\<close> drops the error.
\<close>

theorem ParseDelay_long_delay_counterexample:
  "ParseDelay ''-293Y'' = Inr 0 \<and> (0::int) \<noteq> - (293 * 8760 * hour)"
proof -
  have a: "Atoi ''293'' = (293, None)"
    using Atoi_digits [of "''293''"] digits_293 by simp
  have ms: "DelayPattern_FindStringSubmatch ''-293Y'' = [''-293Y'', ''293'', ''Y'']"
    using DelayPattern_match [of "''293''" "CHR ''Y''"] digits_293 by simp
  have w: "wrap64 2566680 = 2566680" by (simp add: wrap64_def)
  have i: "itoa 2566680 = nat_digits 2566680" by (simp add: itoa_def)
  have p: "ParseDuration (CHR ''-'' # nat_digits 2566680 @ ''h'') = Inl InvalidDuration"
    using ParseDuration_too_long [of "nat_digits 2566680"] nat_digits_props [of 2566680] by simp
  show ?thesis
    by (simp add: ParseDelay_def ms a w i p duration_of_def hour_def)
qed

subsection \<open>Entitlements and the holdings map\<close>

lemma digits_2: "digits_val ''2'' = 2 \<and> list_all is_digit ''2''"
  by (simp add: digits_val_def digit_val_def is_digit_def)

text \<open>
  C1. The delays \<open>-1M\<close> and \<open>-2M\<close> parse to different durations, and \<open>Delay\<close> of an
  entitlement with the first as \<open>FromDelay\<close> and the second as \<open>ToDelay\<close> returns the
  first one with no error (and the second one when they are swapped): \<open>ToDelay\<close> is
  read only when \<open>FromDelay\<close> is empty. The repository's test \<open>TestDelay\<close> expects
  the mismatch error and the duration 0 for both entitlements.
\<close>

theorem Delay_mismatch_not_reported:
  "ParseDelay ''-1M'' = Inr (- (720 * hour))
   \<and> ParseDelay ''-2M'' = Inr (- (1440 * hour))
   \<and> - (720 * hour) \<noteq> - (1440 * hour)
   \<and> Delay \<lparr>Status = [], Entitlement.URL = [], Anchor = [], FromYear = 0, FromVolume = 0, FromIssue = 0,
        FromDelay = ''-1M'', ToYear = 0, ToVolume = 0, ToIssue = 0, ToDelay = ''-2M''\<rparr>
      = Inr (- (720 * hour))
   \<and> Delay \<lparr>Status = [], Entitlement.URL = [], Anchor = [], FromYear = 0, FromVolume = 0, FromIssue = 0,
        FromDelay = ''-2M'', ToYear = 0, ToVolume = 0, ToIssue = 0, ToDelay = ''-1M''\<rparr>
      = Inr (- (1440 * hour))"
proof -
  have a: "ParseDelay ''-1M'' = Inr (- (720 * hour))"
    using ParseDelay_unit [of "''1''" 720 "CHR ''M''"] digits_1 by simp
  have b: "ParseDelay ''-2M'' = Inr (- (1440 * hour))"
    using ParseDelay_unit [of "''2''" 720 "CHR ''M''"] digits_2 by simp
  have c: "- (720 * hour) \<noteq> - (1440 * hour)"
    by (simp add: hour_def)
  show ?thesis
    using a b c by (simp add: Delay_def)
qed

text \<open>
  C10. The map that \<open>HoldingsMap\<close> returns holds, under an ISSN, the last holding element
  of the document that lists this ISSN as an e-ISSN or a p-ISSN, and nothing under a string
  that no holding element lists: its keys are the ISSNs of the holding elements.
\<close>

theorem HoldingsMap_last_wins:
  "HoldingsMap ts k =
     (case filter (\<lambda>x. k \<in> set (EISSN x) \<or> k \<in> set (PISSN x)) (holdings_of ts) of
        [] \<Rightarrow> None | hs \<Rightarrow> Some (last hs))
   \<and> dom (HoldingsMap ts) = (\<Union>x \<in> set (holdings_of ts). set (EISSN x) \<union> set (PISSN x))"
proof -
  have a: "HoldingsMap ts k =
     (case filter (\<lambda>x. k \<in> set (EISSN x) \<or> k \<in> set (PISSN x)) (holdings_of ts) of
        [] \<Rightarrow> None | hs \<Rightarrow> Some (last hs))" for k
    by (simp add: HoldingsMap_def HoldingsMap_loop_apply)
  have "k \<in> dom (HoldingsMap ts) \<longleftrightarrow>
      k \<in> (\<Union>x \<in> set (holdings_of ts). set (EISSN x) \<union> set (PISSN x))" for k
  proof -
    have "k \<in> dom (HoldingsMap ts) \<longleftrightarrow>
        filter (\<lambda>x. k \<in> set (EISSN x) \<or> k \<in> set (PISSN x)) (holdings_of ts) \<noteq> []"
      by (simp add: dom_def a split: list.splits)
    also have "\<dots> \<longleftrightarrow> (\<exists>x \<in> set (holdings_of ts). k \<in> set (EISSN x) \<or> k \<in> set (PISSN x))"
      by (simp add: filter_empty_conv)
    finally show ?thesis by auto
  qed
  then have "dom (HoldingsMap ts) = (\<Union>x \<in> set (holdings_of ts). set (EISSN x) \<union> set (PISSN x))"
    by blast
  with a show ?thesis by blast
qed

subsection \<open>Batches\<close>

lemma chunks_short: "length xs < B \<Longrightarrow> chunks B xs = [xs]"
  by (simp add: chunks.simps)

lemma chunks_full: "0 < B \<Longrightarrow> length xs = B \<Longrightarrow> chunks B (xs @ ys) = xs # chunks B ys"
  by (subst chunks.simps) simp

lemma Genios_loop_chunks:
  "0 < B \<Longrightarrow> length docs < B \<Longrightarrow> i = length docs \<Longrightarrow> decodes_all ts \<Longrightarrow>
   Genios_loop B ts docs i ch = Closed (ch @ map NewBatch (chunks B (docs @ documents_of ts)))"
proof (induction B ts docs i ch rule: Genios_loop.induct)
  case (1 B docs i ch)
  then show ?case by (simp add: chunks_short)
next
  case (2 B ts docs i ch)
  then show ?case by simp
next
  case (3 B ts docs i ch)
  then show ?case by simp
next
  case (4 B doc ts docs i ch)
  show ?case
  proof (cases "i + 1 = B")
    case True
    then have len: "length (docs @ [doc]) = B" using 4 by simp
    have "Genios_loop B ts [] 0 (ch @ [NewBatch (docs @ [doc])])
      = Closed ((ch @ [NewBatch (docs @ [doc])]) @ map NewBatch (chunks B ([] @ documents_of ts)))"
      using 4(1) [OF True] 4(3-) by simp
    then show ?thesis
      using True chunks_full [OF 4(3) len, of "documents_of ts"] by simp
  next
    case False
    then have "length (docs @ [doc]) < B" using 4 by simp
    then show ?thesis using False 4(2) [OF False] 4(3-) by simp
  qed
qed

lemma chunks_concat: "concat (chunks B xs) = xs"
  by (induction B xs rule: chunks.induct) (subst chunks.simps, auto)

lemma chunks_length: "0 < B \<Longrightarrow> length (chunks B xs) = length xs div B + 1"
proof (induction B xs rule: chunks.induct)
  case (1 B xs)
  show ?case
  proof (cases "length xs < B")
    case True
    then show ?thesis by (simp add: chunks_short)
  next
    case False
    then have "length (chunks B (drop B xs)) = (length xs - B) div B + 1"
      using 1 by simp
    moreover have "(length xs - B) div B + 1 = length xs div B"
      using False 1(2) by (simp add: le_div_geq)
    ultimately show ?thesis using False 1(2) by (subst chunks.simps) simp
  qed
qed

lemma chunks_not_Nil: "chunks B xs \<noteq> []"
  by (subst chunks.simps) simp

lemma chunks_last: "0 < B \<Longrightarrow> length (last (chunks B xs)) = length xs mod B"
proof (induction B xs rule: chunks.induct)
  case (1 B xs)
  show ?case
  proof (cases "length xs < B")
    case True
    then show ?thesis by (simp add: chunks_short)
  next
    case False
    then have "length (last (chunks B (drop B xs))) = (length xs - B) mod B"
      using 1 by simp
    moreover have "(length xs - B) mod B = length xs mod B"
      using False by (simp add: le_mod_geq)
    ultimately show ?thesis using False 1(2) chunks_not_Nil [of B "drop B xs"]
      by (subst chunks.simps) simp
  qed
qed

lemma chunks_butlast: "0 < B \<Longrightarrow> b \<in> set (butlast (chunks B xs)) \<Longrightarrow> length b = B"
proof (induction B xs arbitrary: b rule: chunks.induct)
  case (1 B xs)
  show ?case
  proof (cases "length xs < B")
    case True
    then show ?thesis using 1(3) by (simp add: chunks_short)
  next
    case False
    have "chunks B xs = take B xs # chunks B (drop B xs)"
      using False 1(2) by (subst chunks.simps) simp
    then have "b = take B xs \<or> b \<in> set (butlast (chunks B (drop B xs)))"
      using 1(3) chunks_not_Nil [of B "drop B xs"] by auto
    then show ?thesis using 1(1) [of b] 1(2) False by auto
  qed
qed

lemma chunks_sum: "sum_list (map length (chunks B xs)) = length xs"
  using chunks_concat [of B xs] by (metis length_concat)

lemma Genios_batches_chunks:
  "0 < B \<Longrightarrow> decodes_all ts \<Longrightarrow>
   Genios_batches B ts = Closed (map (\<lambda>xs. \<lparr>Items = xs\<rparr>) (chunks B (documents_of ts)))"
  using Genios_loop_chunks [of B "[]" 0 ts "[]"] by (simp add: Genios_batches_def NewBatch_def)

lemma chunks_same_lengths:
  "length xs = length ys \<Longrightarrow> map length (chunks B xs) = map length (chunks B ys)"
proof (induction B xs arbitrary: ys rule: chunks.induct)
  case (1 B xs)
  show ?case
  proof (cases "B = 0 \<or> length xs < B")
    case True
    then show ?thesis using 1(2) by (simp add: chunks.simps [of B xs] chunks.simps [of B ys])
  next
    case False
    then have "map length (chunks B (drop B xs)) = map length (chunks B (drop B ys))"
      using 1 by simp
    then show ?thesis
      using False 1(2) by (simp add: chunks.simps [of B xs] chunks.simps [of B ys])
  qed
qed

lemma chunks_lens: "map length (chunks B xs) = chunk_lens B (length xs)"
  unfolding chunk_lens_def by (rule chunks_same_lengths) simp

lemma chunk_lens_short: "N < B \<Longrightarrow> chunk_lens B N = [N]"
  by (simp add: chunk_lens_def chunks_short)

lemma chunk_lens_full: "0 < B \<Longrightarrow> chunk_lens B (B + N) = B # chunk_lens B N"
  using chunks_full [of B "replicate B ()" "replicate N ()"]
  by (simp add: chunk_lens_def replicate_add)

lemma take_lengths: "\<forall>k \<in> set ks. k \<le> length store \<Longrightarrow>
  map (\<lambda>b. length (Items b)) (map (\<lambda>k. \<lparr>Items = take k store\<rparr>) ks) = ks"
  by (induction ks) auto

lemma append_at_length:
  "n \<le> length store \<Longrightarrow> length store \<le> length (append_at store n x)
     \<and> n + 1 \<le> length (append_at store n x)"
  by (simp add: append_at_def)

lemma Crossref_loop_lens:
  "0 < B \<Longrightarrow> n < B \<Longrightarrow> i = n + 1 \<Longrightarrow> n \<le> length store \<Longrightarrow>
   \<forall>k \<in> set ch. k \<le> length store \<Longrightarrow>
   \<exists>bs. Crossref_loop B (map Line ls) store n i ch = Closed bs
      \<and> map (\<lambda>b. length (Items b)) bs = ch @ chunk_lens B (n + length ls)"
proof (induction ls arbitrary: store n i ch)
  case Nil
  have "\<forall>k \<in> set (ch @ [n]). k \<le> length store" using Nil by simp
  then have "map (\<lambda>b. length (Items b)) (map (\<lambda>k. \<lparr>Items = take k store\<rparr>) (ch @ [n])) = ch @ [n]"
    by (rule take_lengths)
  then show ?case using Nil(2) by (simp add: chunk_lens_short)
next
  case (Cons l ls)
  let ?store = "append_at store n l"
  have len: "length store \<le> length ?store" "n + 1 \<le> length ?store"
    using append_at_length [OF Cons.prems(4)] by auto
  show ?case
  proof (cases "i = B")
    case True
    have inv: "\<forall>k \<in> set (ch @ [n + 1]). k \<le> length ?store"
      using Cons.prems(5) len by auto
    from Cons.IH [of 0 1 ?store "ch @ [n + 1]"] Cons.prems(1) inv
    obtain bs where bs: "Crossref_loop B (map Line ls) ?store 0 1 (ch @ [n + 1]) = Closed bs"
      "map (\<lambda>b. length (Items b)) bs = (ch @ [n + 1]) @ chunk_lens B (0 + length ls)"
      by auto
    have "n + 1 = B" using True Cons.prems(3) by simp
    then have "n + length (l # ls) = B + length ls" by simp
    then have "chunk_lens B (n + length (l # ls)) = B # chunk_lens B (length ls)"
      using chunk_lens_full [OF Cons.prems(1), of "length ls"] by metis
    then show ?thesis using bs True \<open>n + 1 = B\<close> by simp
  next
    case False
    then have lt: "n + 1 < B" using Cons.prems(2,3) by simp
    have inv: "\<forall>k \<in> set ch. k \<le> length ?store"
      using Cons.prems(5) len by auto
    from Cons.IH [of "n + 1" "i + 1" ?store ch] Cons.prems(1,3) lt len inv
    obtain bs where bs: "Crossref_loop B (map Line ls) ?store (n + 1) (i + 1) ch = Closed bs"
      "map (\<lambda>b. length (Items b)) bs = ch @ chunk_lens B (n + 1 + length ls)"
      by auto
    then show ?thesis using False by simp
  qed
qed

lemma Crossref_batches_lens:
  "0 < B \<Longrightarrow> \<exists>bs. Crossref_batches B (map Line ls) = Closed bs
      \<and> map (\<lambda>b. length (Items b)) bs = chunk_lens B (length ls)"
  using Crossref_loop_lens [of B 0 1 "[]" "[]" ls] by (simp add: Crossref_batches_def)

lemma Genios_batches_lens:
  "0 < B \<Longrightarrow> decodes_all ts \<Longrightarrow> \<exists>bs. Genios_batches B ts = Closed bs
      \<and> concat (map Items bs) = documents_of ts
      \<and> map (\<lambda>b. length (Items b)) bs = chunk_lens B (length (documents_of ts))"
  using Genios_batches_chunks [of B ts] chunks_lens [of B "documents_of ts"]
    chunks_concat [of B "documents_of ts"]
  by (simp add: comp_def)

lemma chunk_lens_not_Nil: "chunk_lens B N \<noteq> []"
  by (simp add: chunk_lens_def chunks_not_Nil)

lemma lens_count:
  assumes "0 < B" and "map (\<lambda>b. length (Items b)) bs = chunk_lens B N"
  shows "length bs = N div B + 1
         \<and> sum_list (map (\<lambda>b. length (Items b)) bs) = N
         \<and> length (Items (last bs)) = N mod B"
proof -
  have n: "bs \<noteq> []" using assms(2) chunk_lens_not_Nil [of B N] by auto
  have "length bs = length (chunk_lens B N)" using assms(2) by (metis length_map)
  then have a: "length bs = N div B + 1"
    using assms(1) by (simp add: chunk_lens_def chunks_length)
  have b: "sum_list (map (\<lambda>b. length (Items b)) bs) = N"
    unfolding assms(2) chunk_lens_def using chunks_sum [of B "replicate N ()"] by simp
  have "length (Items (last bs)) = last (map (\<lambda>b. length (Items b)) bs)"
    using n by (simp add: last_map)
  also have "\<dots> = length (last (chunks B (replicate N ())))"
    unfolding assms(2) chunk_lens_def using chunks_not_Nil [of B "replicate N ()"]
    by (simp add: last_map)
  also have "\<dots> = N mod B" using chunks_last [OF assms(1), of "replicate N ()"] by simp
  finally show ?thesis using a b by simp
qed

lemma lens_shape:
  assumes "0 < B" and "map (\<lambda>b. length (Items b)) bs = chunk_lens B N"
  shows "(\<forall>b \<in> set (butlast bs). length (Items b) = B)
         \<and> (Items (last bs) = [] \<longleftrightarrow> B dvd N)"
proof -
  have "map (\<lambda>b. length (Items b)) (butlast bs) = butlast (chunk_lens B N)"
    using assms(2) by (simp add: map_butlast)
  also have "\<dots> = map length (butlast (chunks B (replicate N ())))"
    by (simp add: chunk_lens_def map_butlast)
  finally have m: "map (\<lambda>b. length (Items b)) (butlast bs)
      = map length (butlast (chunks B (replicate N ())))" .
  have a: "\<forall>b \<in> set (butlast bs). length (Items b) = B"
  proof
    fix b assume "b \<in> set (butlast bs)"
    then have "length (Items b) \<in> set (map (\<lambda>b. length (Items b)) (butlast bs))" by simp
    then have "length (Items b) \<in> length ` set (butlast (chunks B (replicate N ())))"
      unfolding m by simp
    then show "length (Items b) = B" using chunks_butlast [OF assms(1)] by auto
  qed
  have "length (Items (last bs)) = N mod B" using lens_count [OF assms] by simp
  then have "Items (last bs) = [] \<longleftrightarrow> N mod B = 0" by (metis length_0_conv)
  then show ?thesis using a by (simp add: dvd_eq_mod_eq_0)
qed

text \<open>
  The batches of Crossref share their array: with a batch size of 2 and five lines, the
  two full batches read as the lines last written to the two cells.
\<close>

lemma Crossref_batches_share_store:
  "Crossref_batches 2 (map Line [''a'', ''b'', ''c'', ''d'', ''e''])
     = Closed [\<lparr>Items = [''e'', ''d'']\<rparr>, \<lparr>Items = [''e'', ''d'']\<rparr>, \<lparr>Items = [''e'']\<rparr>]"
  by (simp add: Crossref_batches_def append_at_def)

text \<open>
  C2, as amended. With a batch size \<open>B > 0\<close> and an input of \<open>N\<close> records that all read
  (or decode), each iterator sends \<open>N div B + 1\<close> batches and closes the channel; the
  item counts of the batches add up to \<open>N\<close>; and the last batch holds \<open>N mod B\<close> items,
  which is none when \<open>N\<close> is a multiple of \<open>B\<close>. \<open>Iterate\<close> is the case \<open>B = 25000\<close>
  of Crossref and \<open>B = 2000\<close> of Genios.
\<close>

theorem Iterate_batch_count:
  "0 < B \<longrightarrow>
     (\<exists>bs. Crossref_batches B (map Line ls) = Closed bs
          \<and> length bs = length ls div B + 1
          \<and> sum_list (map (\<lambda>b. length (Items b)) bs) = length ls
          \<and> length (Items (last bs)) = length ls mod B)
   \<and> (decodes_all ts \<longrightarrow>
        (\<exists>bs. Genios_batches B ts = Closed bs
          \<and> length bs = length (documents_of ts) div B + 1
          \<and> sum_list (map (\<lambda>b. length (Items b)) bs) = length (documents_of ts)
          \<and> length (Items (last bs)) = length (documents_of ts) mod B))"
proof (intro impI conjI)
  assume B: "0 < B"
  from Crossref_batches_lens [OF B, of ls] obtain bs where
    bs: "Crossref_batches B (map Line ls) = Closed bs"
      "map (\<lambda>b. length (Items b)) bs = chunk_lens B (length ls)" by blast
  show "\<exists>bs. Crossref_batches B (map Line ls) = Closed bs
          \<and> length bs = length ls div B + 1
          \<and> sum_list (map (\<lambda>b. length (Items b)) bs) = length ls
          \<and> length (Items (last bs)) = length ls mod B"
    using bs(1) lens_count [OF B bs(2)] by blast
next
  assume B: "0 < B" and d: "decodes_all ts"
  from Genios_batches_lens [OF B d] obtain bs where
    bs: "Genios_batches B ts = Closed bs"
      "map (\<lambda>b. length (Items b)) bs = chunk_lens B (length (documents_of ts))" by blast
  show "\<exists>bs. Genios_batches B ts = Closed bs
          \<and> length bs = length (documents_of ts) div B + 1
          \<and> sum_list (map (\<lambda>b. length (Items b)) bs) = length (documents_of ts)
          \<and> length (Items (last bs)) = length (documents_of ts) mod B"
    using bs(1) lens_count [OF B bs(2)] by blast
qed

theorem Iterate_batch_count_witness:
  "(0::nat) < 2
   \<and> (\<exists>bs. Crossref_batches 2 (map Line [''a'', ''b'', ''c'']) = Closed bs
          \<and> length bs = length [''a'', ''b'', ''c''] div 2 + 1
          \<and> sum_list (map (\<lambda>b. length (Items b)) bs) = length [''a'', ''b'', ''c'']
          \<and> length (Items (last bs)) = length [''a'', ''b'', ''c''] mod 2)
   \<and> decodes_all [DocumentElement (Some ''x''), OtherXml, DocumentElement (Some ''y'')]
   \<and> (\<exists>bs. Genios_batches 2 [DocumentElement (Some ''x''), OtherXml, DocumentElement (Some ''y'')]
            = Closed bs
          \<and> length bs
              = length (documents_of [DocumentElement (Some ''x''), OtherXml, DocumentElement (Some ''y'')])
                  div 2 + 1
          \<and> sum_list (map (\<lambda>b. length (Items b)) bs)
              = length (documents_of [DocumentElement (Some ''x''), OtherXml, DocumentElement (Some ''y'')])
          \<and> length (Items (last bs))
              = length (documents_of [DocumentElement (Some ''x''), OtherXml, DocumentElement (Some ''y'')])
                  mod 2)"
proof -
  have B: "(0::nat) < 2" by simp
  have d: "decodes_all [DocumentElement (Some ''x''), OtherXml, DocumentElement (Some ''y'')]"
    by simp
  show ?thesis
    using B d Iterate_batch_count [of 2 "[''a'', ''b'', ''c'']"
      "[DocumentElement (Some ''x''), OtherXml, DocumentElement (Some ''y'')]"]
    by blast
qed

text \<open>
  The claim as stated fails on the empty input: Crossref's \<open>Iterate\<close> sends one batch,
  with no items, where the claim counts no batch at all (the ceiling of 0 / 25000).
\<close>

theorem Iterate_batch_count_counterexample:
  "Crossref_Iterate [] = Closed [\<lparr>Items = []\<rparr>]
   \<and> length [\<lparr>Items = ([] :: string list)\<rparr>]
       \<noteq> (length ([] :: string read_result list) + crossref_BatchSize - 1) div crossref_BatchSize"
  by (simp add: Crossref_Iterate_def Crossref_batches_def crossref_BatchSize_def)

text \<open>
  C3, as amended. With a batch size \<open>B > 0\<close> and an input that reads (or decodes) to the
  end, every batch before the last one holds exactly \<open>B\<close> items, so none of them is empty;
  the last batch is empty exactly when the number of records is a multiple of \<open>B\<close>, the
  empty input included.
\<close>

theorem Iterate_only_last_batch_empty:
  "0 < B \<longrightarrow>
     (\<exists>bs. Crossref_batches B (map Line ls) = Closed bs
          \<and> (\<forall>b \<in> set (butlast bs). length (Items b) = B)
          \<and> (Items (last bs) = [] \<longleftrightarrow> B dvd length ls))
   \<and> (decodes_all ts \<longrightarrow>
        (\<exists>bs. Genios_batches B ts = Closed bs
          \<and> (\<forall>b \<in> set (butlast bs). length (Items b) = B)
          \<and> (Items (last bs) = [] \<longleftrightarrow> B dvd length (documents_of ts))))"
proof (intro impI conjI)
  assume B: "0 < B"
  from Crossref_batches_lens [OF B, of ls] obtain bs where
    bs: "Crossref_batches B (map Line ls) = Closed bs"
      "map (\<lambda>b. length (Items b)) bs = chunk_lens B (length ls)" by blast
  show "\<exists>bs. Crossref_batches B (map Line ls) = Closed bs
          \<and> (\<forall>b \<in> set (butlast bs). length (Items b) = B)
          \<and> (Items (last bs) = [] \<longleftrightarrow> B dvd length ls)"
    using bs(1) lens_shape [OF B bs(2)] by blast
next
  assume B: "0 < B" and d: "decodes_all ts"
  from Genios_batches_lens [OF B d] obtain bs where
    bs: "Genios_batches B ts = Closed bs"
      "map (\<lambda>b. length (Items b)) bs = chunk_lens B (length (documents_of ts))" by blast
  show "\<exists>bs. Genios_batches B ts = Closed bs
          \<and> (\<forall>b \<in> set (butlast bs). length (Items b) = B)
          \<and> (Items (last bs) = [] \<longleftrightarrow> B dvd length (documents_of ts))"
    using bs(1) lens_shape [OF B bs(2)] by blast
qed

theorem Iterate_only_last_batch_empty_witness:
  "(0::nat) < 2
   \<and> (\<exists>bs. Crossref_batches 2 (map Line [''a'', ''b'', ''c'', ''d'']) = Closed bs
          \<and> (\<forall>b \<in> set (butlast bs). length (Items b) = 2)
          \<and> (Items (last bs) = [] \<longleftrightarrow> 2 dvd length [''a'', ''b'', ''c'', ''d'']))
   \<and> decodes_all [DocumentElement (Some ''x'')]
   \<and> (\<exists>bs. Genios_batches 2 [DocumentElement (Some ''x'')] = Closed bs
          \<and> (\<forall>b \<in> set (butlast bs). length (Items b) = 2)
          \<and> (Items (last bs) = [] \<longleftrightarrow> 2 dvd length (documents_of [DocumentElement (Some ''x'')])))"
proof -
  have B: "(0::nat) < 2" by simp
  have d: "decodes_all [DocumentElement (Some ''x'')]" by simp
  show ?thesis
    using B d Iterate_only_last_batch_empty [of 2 "[''a'', ''b'', ''c'', ''d'']"
        "[DocumentElement (Some ''x'')]"]
    by blast
qed

text \<open>
  The claim as stated fails on the empty input, where the one batch that Genios'
  \<open>Iterate\<close> sends is empty, and on an input of exactly one batch size, where a second,
  empty batch follows the full one.
\<close>

theorem Iterate_empty_batch_counterexample:
  "Genios_Iterate ([] :: string xml_token list) = Closed [\<lparr>Items = []\<rparr>]
   \<and> Genios_batches 2 [DocumentElement (Some ''x''), DocumentElement (Some ''y'')]
       = Closed [\<lparr>Items = [''x'', ''y'']\<rparr>, \<lparr>Items = []\<rparr>]"
  by (simp add: Genios_Iterate_def Genios_batches_def NewBatch_def)

subsection \<open>Pages\<close>

lemma nonzero_is_digit: "is_nonzero_digit c \<Longrightarrow> is_digit c"
  by (simp add: is_nonzero_digit_def is_digit_def)

lemma hyphen_not_digit: "\<not> is_digit (CHR ''-'')"
  by (simp add: is_digit_def)

lemma list_all_takeWhile: "list_all P (takeWhile P xs)"
  by (induction xs) auto

lemma dropWhile_hd: "dropWhile P xs = [] \<or> \<not> P (hd (dropWhile P xs))"
  by (induction xs) auto

lemma match_pages_here_Some:
  assumes "match_pages_here s = Some (ss, es)"
  shows "page_number ss \<and> page_number es
         \<and> (\<exists>post. s = ss @ ''-'' @ es @ post \<and> (post = [] \<or> \<not> is_digit (hd post)))"
proof -
  from assms obtain c r f t where s: "s = c # r" and c: "is_nonzero_digit c"
    and d: "dropWhile is_digit r = CHR ''-'' # f # t" and f: "is_nonzero_digit f"
    and ss: "ss = c # takeWhile is_digit r" and es: "es = f # takeWhile is_digit t"
    by (auto simp: match_pages_here_def split: list.splits if_splits)
  have r: "r = takeWhile is_digit r @ CHR ''-'' # f # t"
    using d takeWhile_dropWhile_id [of is_digit r] by simp
  have t: "t = takeWhile is_digit t @ dropWhile is_digit t" by simp
  have "s = ss @ ''-'' @ es @ dropWhile is_digit t"
    using s ss es r t by (metis append_Cons append_Nil append_assoc)
  moreover have "dropWhile is_digit t = [] \<or> \<not> is_digit (hd (dropWhile is_digit t))"
    by (rule dropWhile_hd)
  moreover have "page_number ss" "page_number es"
    using c f ss es by (simp_all add: page_number_def nonzero_is_digit list_all_takeWhile)
  ultimately show ?thesis by blast
qed

lemma match_pages_here_complete:
  assumes "page_number ss" "page_number es"
  shows "match_pages_here (ss @ ''-'' @ es @ post) \<noteq> None"
proof -
  from assms obtain c ss' f es' where ss: "ss = c # ss'" and es: "es = f # es'"
    and c: "is_nonzero_digit c" and f: "is_nonzero_digit f"
    and a: "list_all is_digit ss'"
    by (cases ss; cases es) (auto simp: page_number_def)
  have "dropWhile is_digit (ss' @ CHR ''-'' # f # es' @ post) = CHR ''-'' # f # es' @ post"
    using dropWhile_digits_then [OF a hyphen_not_digit] by simp
  then show ?thesis
    using c f by (simp add: match_pages_here_def ss es)
qed

lemma find_pages_None:
  "find_pages s = None \<longleftrightarrow>
     \<not> (\<exists>pre ss es post. s = pre @ ss @ ''-'' @ es @ post \<and> page_number ss \<and> page_number es)"
proof (induction s)
  case Nil
  show ?case by (auto simp: page_number_def)
next
  case (Cons c cs)
  show ?case
  proof (cases "match_pages_here (c # cs)")
    case (Some m)
    obtain ss es where m: "m = (ss, es)" by (cases m)
    from match_pages_here_Some [OF Some [unfolded m]]
    have "\<exists>pre ss es post. c # cs = pre @ ss @ ''-'' @ es @ post \<and> page_number ss \<and> page_number es"
      by (metis append_Nil)
    with Some show ?thesis by simp
  next
    case None
    have "(\<exists>pre ss es post. c # cs = pre @ ss @ ''-'' @ es @ post \<and> page_number ss \<and> page_number es)
      \<longleftrightarrow> (\<exists>pre ss es post. cs = pre @ ss @ ''-'' @ es @ post \<and> page_number ss \<and> page_number es)"
    proof
      assume "\<exists>pre ss es post. c # cs = pre @ ss @ ''-'' @ es @ post \<and> page_number ss \<and> page_number es"
      then obtain pre ss es post where
        e: "c # cs = pre @ ss @ ''-'' @ es @ post" and p: "page_number ss" "page_number es"
        by blast
      have "pre \<noteq> []"
      proof
        assume "pre = []"
        then have "match_pages_here (c # cs) \<noteq> None"
          using e match_pages_here_complete [OF p] by simp
        with None show False by simp
      qed
      then obtain pre' where "pre = c # pre'" "cs = pre' @ ss @ ''-'' @ es @ post"
        using e by (cases pre) auto
      with p show "\<exists>pre ss es post. cs = pre @ ss @ ''-'' @ es @ post \<and> page_number ss \<and> page_number es"
        by blast
    next
      assume "\<exists>pre ss es post. cs = pre @ ss @ ''-'' @ es @ post \<and> page_number ss \<and> page_number es"
      then obtain pre ss es post where
        "cs = pre @ ss @ ''-'' @ es @ post" "page_number ss" "page_number es" by blast
      then have "c # cs = (c # pre) @ ss @ ''-'' @ es @ post \<and> page_number ss \<and> page_number es"
        by simp
      then show "\<exists>pre ss es post. c # cs = pre @ ss @ ''-'' @ es @ post \<and> page_number ss \<and> page_number es"
        by blast
    qed
    with None Cons show ?thesis by simp
  qed
qed

lemma find_pages_Some:
  "find_pages s = Some (ss, es) \<Longrightarrow>
     page_number ss \<and> page_number es
     \<and> (\<exists>pre post. s = pre @ ss @ ''-'' @ es @ post
           \<and> (post = [] \<or> \<not> is_digit (hd post))
           \<and> (\<forall>pre' ss' es' post'.
                 s = pre' @ ss' @ ''-'' @ es' @ post' \<and> page_number ss' \<and> page_number es'
                 \<longrightarrow> length pre \<le> length pre'))"
proof (induction s)
  case Nil
  then show ?case by simp
next
  case (Cons c cs)
  show ?case
  proof (cases "match_pages_here (c # cs)")
    case (Some m)
    then have m: "match_pages_here (c # cs) = Some (ss, es)" using Cons.prems by simp
    from match_pages_here_Some [OF m] obtain post where
      p: "page_number ss" "page_number es" and e: "c # cs = ss @ ''-'' @ es @ post"
      and q: "post = [] \<or> \<not> is_digit (hd post)" by blast
    have "c # cs = [] @ ss @ ''-'' @ es @ post" using e by simp
    moreover have "\<forall>pre' ss' es' post'.
        c # cs = pre' @ ss' @ ''-'' @ es' @ post' \<and> page_number ss' \<and> page_number es'
        \<longrightarrow> length ([] :: string) \<le> length pre'" by simp
    ultimately show ?thesis using p q by blast
  next
    case None
    then have "find_pages cs = Some (ss, es)" using Cons.prems by simp
    from Cons.IH [OF this] obtain pre post where
      p: "page_number ss" "page_number es" and e: "cs = pre @ ss @ ''-'' @ es @ post"
      and q: "post = [] \<or> \<not> is_digit (hd post)"
      and l: "\<forall>pre' ss' es' post'.
        cs = pre' @ ss' @ ''-'' @ es' @ post' \<and> page_number ss' \<and> page_number es'
        \<longrightarrow> length pre \<le> length pre'" by blast
    have e': "c # cs = (c # pre) @ ss @ ''-'' @ es @ post" using e by simp
    have l': "length (c # pre) \<le> length pre'"
      if d: "c # cs = pre' @ ss' @ ''-'' @ es' @ post'" "page_number ss'" "page_number es'"
      for pre' ss' es' post'
    proof -
      have "pre' \<noteq> []"
      proof
        assume "pre' = []"
        then have "match_pages_here (c # cs) \<noteq> None"
          using d match_pages_here_complete [OF d(2,3)] by simp
        with None show False by simp
      qed
      then obtain pre'' where "pre' = c # pre''" "cs = pre'' @ ss' @ ''-'' @ es' @ post'"
        using d(1) by (cases pre') auto
      then show ?thesis using l d(2,3) by auto
    qed
    show ?thesis
      using p q e' l' by blast
  qed
qed

lemma foldl_digits_ge: "x \<le> foldl (\<lambda>n c. 10 * n + digit_val c) x cs"
proof (induction cs arbitrary: x)
  case Nil
  show ?case by simp
next
  case (Cons c cs)
  have "x \<le> 10 * x + digit_val c" by simp
  also have "\<dots> \<le> foldl (\<lambda>n c. 10 * n + digit_val c) (10 * x + digit_val c) cs"
    by (rule Cons.IH)
  finally show ?case by simp
qed

lemma digits_val_page_number: "page_number ds \<Longrightarrow> 1 \<le> digits_val ds"
proof -
  assume p: "page_number ds"
  then obtain c cs where ds: "ds = c # cs" and c: "is_nonzero_digit c"
    by (cases ds) (auto simp: page_number_def)
  have "1 \<le> digit_val c" using c unfolding is_nonzero_digit_def digit_val_def by linarith
  also have "\<dots> \<le> foldl (\<lambda>n c. 10 * n + digit_val c) (digit_val c) cs"
    by (rule foldl_digits_ge)
  finally show ?thesis by (simp add: digits_val_def ds)
qed

lemma Atoi_page_number:
  assumes "page_number ds"
  shows "1 \<le> fst (Atoi ds) \<and> fst (Atoi ds) \<le> 2 ^ 63 - 1
         \<and> (digits_val ds < 2 ^ 63 \<longrightarrow> Atoi ds = (int (digits_val ds), None))"
proof -
  have d: "list_all is_digit ds" "ds \<noteq> []" using assms by (auto simp: page_number_def)
  then have "is_digit (hd ds)" by (cases ds) auto
  then have h: "hd ds \<noteq> CHR ''-''" "hd ds \<noteq> CHR ''+''" using is_digit_not_sign by auto
  have n: "1 \<le> int (digits_val ds)" using digits_val_page_number [OF assms] by simp
  show ?thesis
  proof (cases "2 ^ 63 \<le> int (digits_val ds)")
    case True
    then have "\<not> digits_val ds < 2 ^ 63"
      by (metis of_nat_less_numeral_power_cancel_iff not_le)
    then show ?thesis using True d h by (simp add: Atoi_def Let_def)
  next
    case False
    then show ?thesis using d h n by (simp add: Atoi_def Let_def)
  qed
qed

lemma nat_digits_not_Nil: "nat_digits n \<noteq> []"
  by (subst nat_digits.simps) simp

lemma itoa_not_Nil: "itoa i \<noteq> []"
  by (simp add: itoa_def nat_digits_not_Nil)

lemma parsePages_None:
  "find_pages s = None \<Longrightarrow> parsePages s = ([], [], [])"
  by (simp add: parsePages_def p_FindStringSubmatch_def)

lemma parsePages_Some:
  assumes "find_pages s = Some (ss, es)"
  shows "parsePages s = (ss, es, itoa (fst (Atoi es) - fst (Atoi ss)))"
proof -
  have p: "page_number ss" "page_number es" using find_pages_Some [OF assms] by auto
  have "- (2 ^ 63) \<le> fst (Atoi es) - fst (Atoi ss)" "fst (Atoi es) - fst (Atoi ss) < 2 ^ 63"
    using Atoi_page_number [OF p(1)] Atoi_page_number [OF p(2)] by auto
  then have "wrap64 (fst (Atoi es) - fst (Atoi ss)) = fst (Atoi es) - fst (Atoi ss)"
    by (simp add: wrap64_def)
  then show ?thesis
    using assms by (simp add: parsePages_def p_FindStringSubmatch_def Let_def)
qed

lemmas pages_eval = find_pages.simps match_pages_here_def is_nonzero_digit_def is_digit_def
  Atoi_def digits_val_def digit_val_def itoa_def nat_digits.simps digit_char_def Let_def

lemma find_pages_73_100: "find_pages ''Dampfboot, 2003), 73-100'' = Some (''73'', ''100'')"
  by (simp add: pages_eval)

lemma find_pages_100_73: "find_pages ''100-73'' = Some (''100'', ''73'')"
  by (simp add: pages_eval)

lemma parsePages_100_73: "parsePages ''100-73'' = (''100'', ''73'', ''-27'')"
  by (simp add: parsePages_Some [OF find_pages_100_73] pages_eval)

lemma PageInfo_73_100:
  "PageInfo_of \<lparr>DOI = [], Page = ''73-100'', URL = []\<rparr>
     = \<lparr>RawMessage = ''73-100'', StartPage = 73, EndPage = 100\<rparr>"
  by (simp add: PageInfo_of_def pages_eval)

lemma PageInfo_100_73:
  "PageInfo_of \<lparr>DOI = [], Page = ''100-73'', URL = []\<rparr>
     = \<lparr>RawMessage = ''100-73'', StartPage = 100, EndPage = 73\<rparr>"
  by (simp add: PageInfo_of_def pages_eval)

lemma PageInfo_73_x:
  "PageInfo_of \<lparr>DOI = [], Page = ''73-x'', URL = []\<rparr>
     = \<lparr>RawMessage = ''73-x'', StartPage = 73, EndPage = 0\<rparr>"
  by (simp add: PageInfo_of_def pages_eval)

lemma parsePages_shape:
  "(parsePages s = ([], [], []) \<longleftrightarrow>
      \<not> (\<exists>pre ss es post. s = pre @ ss @ ''-'' @ es @ post \<and> page_number ss \<and> page_number es))
   \<and> (parsePages s \<noteq> ([], [], []) \<longrightarrow>
        (\<exists>pre ss es post.
            s = pre @ ss @ ''-'' @ es @ post \<and> page_number ss \<and> page_number es
            \<and> (post = [] \<or> \<not> is_digit (hd post))
            \<and> (\<forall>pre' ss' es' post'.
                  s = pre' @ ss' @ ''-'' @ es' @ post' \<and> page_number ss' \<and> page_number es'
                  \<longrightarrow> length pre \<le> length pre')
            \<and> parsePages s = (ss, es, itoa (fst (Atoi es) - fst (Atoi ss)))))
   \<and> (case parsePages s of
         (first, final, count) \<Rightarrow>
           (first = [] \<and> final = [] \<and> count = []) \<or> (first \<noteq> [] \<and> final \<noteq> [] \<and> count \<noteq> []))"
proof (cases "find_pages s")
  case None
  then have "parsePages s = ([], [], [])" by (rule parsePages_None)
  then show ?thesis using None find_pages_None [of s] by simp
next
  case (Some m)
  obtain ss es where m: "m = (ss, es)" by (cases m)
  have f: "find_pages s = Some (ss, es)" using Some m by simp
  have r: "parsePages s = (ss, es, itoa (fst (Atoi es) - fst (Atoi ss)))"
    by (rule parsePages_Some [OF f])
  have p: "page_number ss" "page_number es" using find_pages_Some [OF f] by auto
  then have n: "ss \<noteq> []" "es \<noteq> []" by (auto simp: page_number_def)
  have a: "parsePages s \<noteq> ([], [], [])" using r n by simp
  have b: "\<exists>pre ss es post. s = pre @ ss @ ''-'' @ es @ post \<and> page_number ss \<and> page_number es"
    using find_pages_Some [OF f] by blast
  have c: "\<exists>pre ss es post.
            s = pre @ ss @ ''-'' @ es @ post \<and> page_number ss \<and> page_number es
            \<and> (post = [] \<or> \<not> is_digit (hd post))
            \<and> (\<forall>pre' ss' es' post'.
                  s = pre' @ ss' @ ''-'' @ es' @ post' \<and> page_number ss' \<and> page_number es'
                  \<longrightarrow> length pre \<le> length pre')
            \<and> parsePages s = (ss, es, itoa (fst (Atoi es) - fst (Atoi ss)))"
    using find_pages_Some [OF f] r by blast
  have d: "case parsePages s of
         (first, final, count) \<Rightarrow>
           (first = [] \<and> final = [] \<and> count = []) \<or> (first \<noteq> [] \<and> final \<noteq> [] \<and> count \<noteq> [])"
    using r n by (simp add: itoa_not_Nil)
  from a b c d show ?thesis by blast
qed

text \<open>
  C4. \<open>parsePages\<close> compares the two numbers nowhere. It returns three empty strings
  exactly when the text has no occurrence of two positive whole numbers joined by a hyphen,
  and its three fields are always all empty or all non-empty. So for \<open>100-73\<close>, where the
  end is before the start, it returns \<open>100\<close>, \<open>73\<close> and the count \<open>-27\<close>, where the claim
  has three empty strings. \<open>PageCount\<close> of package crossref does guard the case (its
  count must be above 0) and gives 0 for the same range. For \<open>73-100\<close> both give 27.
\<close>

theorem parsePages_end_before_start:
  "(parsePages s = ([], [], []) \<longleftrightarrow>
      \<not> (\<exists>pre ss es post. s = pre @ ss @ ''-'' @ es @ post \<and> page_number ss \<and> page_number es))
   \<and> (case parsePages s of
         (first, final, count) \<Rightarrow>
           (first = [] \<and> final = [] \<and> count = []) \<or> (first \<noteq> [] \<and> final \<noteq> [] \<and> count \<noteq> []))
   \<and> parsePages ''100-73'' = (''100'', ''73'', ''-27'')
   \<and> PageCount_of (PageInfo_of \<lparr>DOI = [], Page = ''100-73'', URL = []\<rparr>) = 0
   \<and> parsePages ''Dampfboot, 2003), 73-100'' = (''73'', ''100'', ''27'')
   \<and> PageCount_of (PageInfo_of \<lparr>DOI = [], Page = ''73-100'', URL = []\<rparr>) = 27"
proof -
  have a: "PageCount_of (PageInfo_of \<lparr>DOI = [], Page = ''100-73'', URL = []\<rparr>) = 0"
    unfolding PageInfo_100_73 by (simp add: PageCount_of_def wrap64_def)
  have b: "PageCount_of (PageInfo_of \<lparr>DOI = [], Page = ''73-100'', URL = []\<rparr>) = 27"
    unfolding PageInfo_73_100 by (simp add: PageCount_of_def wrap64_def)
  have c: "parsePages ''Dampfboot, 2003), 73-100'' = (''73'', ''100'', ''27'')"
    by (simp add: parsePages_Some [OF find_pages_73_100] pages_eval)
  show ?thesis
    using parsePages_shape [of s] parsePages_100_73 a b c by simp
qed

subsection \<open>Conversions\<close>

lemma EncodeToString_length:
  "length (EncodeToString al False s) = (4 * length s + 2) div 3"
  by (induction al "False" s rule: EncodeToString.induct) auto

lemma RawURL_length_ge: "length s \<le> length (RawURLEncoding_EncodeToString s)"
  by (simp add: RawURLEncoding_EncodeToString_def EncodeToString_length)

lemma add_identifier_ID:
  "IntermediateSchema.ID (add_identifier v out) = IntermediateSchema.ID out
   \<and> IntermediateSchema.RecordID (add_identifier v out) = IntermediateSchema.RecordID out"
  by (simp add: add_identifier_def Let_def)

lemma fold_add_identifier_ID:
  "IntermediateSchema.ID (fold add_identifier vs out) = IntermediateSchema.ID out
   \<and> IntermediateSchema.RecordID (fold add_identifier vs out) = IntermediateSchema.RecordID out"
  by (induction vs arbitrary: out) (simp_all add: add_identifier_ID)

lemma genderopen_ID:
  "IntermediateSchema.ID (fst (genderopen_ToIntermediateSchema e r))
     = ''ai-162-'' @ RawURLEncoding_EncodeToString (Header_Identifier r)
   \<and> IntermediateSchema.RecordID (fst (genderopen_ToIntermediateSchema e r))
     = RawURLEncoding_EncodeToString (Header_Identifier r)"
  by (simp add: genderopen_ToIntermediateSchema_def Let_def fold_add_identifier_ID
      split: sum.splits)

lemma genderopen_success:
  "snd (genderopen_ToIntermediateSchema e r) = None \<longleftrightarrow>
     4 \<le> length (Dc_Date r) \<and> list_all is_digit (take 4 (Dc_Date r))"
  by (auto simp: genderopen_ToIntermediateSchema_def Let_def Parse_2006_def split: sum.splits)

lemma genderopen_date:
  "snd (genderopen_ToIntermediateSchema e r) = None \<Longrightarrow>
     Parse_2006 (take 4 (Dc_Date r)) = Inr (Date (fst (genderopen_ToIntermediateSchema e r)))
     \<and> IntermediateSchema.RawDate (fst (genderopen_ToIntermediateSchema e r))
         = Format_2006_01_02 (Date (fst (genderopen_ToIntermediateSchema e r)))"
  by (auto simp: genderopen_ToIntermediateSchema_def Let_def split: sum.splits if_splits)

lemma genderopen_empty_date:
  "Dc_Date r = [] \<Longrightarrow>
     snd (genderopen_ToIntermediateSchema e r) = Some (Skip (Literal ''empty date''))"
  by (simp add: genderopen_ToIntermediateSchema_def Let_def)

lemma genderopen_short_date:
  "Dc_Date r \<noteq> [] \<Longrightarrow> length (Dc_Date r) < 4 \<Longrightarrow>
     snd (genderopen_ToIntermediateSchema e r) = Some (Skip (Literal ''short date''))"
  by (simp add: genderopen_ToIntermediateSchema_def Let_def)

lemma genios_date_error:
  "genios_Date d = Inl err \<Longrightarrow>
     snd (genios_ToIntermediateSchema e d) = Some (Skip (ErrorText err))"
  by (simp add: genios_ToIntermediateSchema_def Let_def)

lemma genios_success:
  "snd (genios_ToIntermediateSchema e d) = None \<longleftrightarrow>
     (\<exists>t. genios_Date d = Inr t) \<and> length (TrimSpace (Title d)) \<le> 2048
     \<and> length (FincID d) \<le> KeyLengthLimit e"
  by (cases "genios_Date d") (auto simp: genios_ToIntermediateSchema_def Let_def)

lemma genios_success_fields:
  "snd (genios_ToIntermediateSchema e d) = None \<Longrightarrow>
     genios_Date d = Inr (Date (fst (genios_ToIntermediateSchema e d)))
     \<and> IntermediateSchema.RawDate (fst (genios_ToIntermediateSchema e d))
         = Format_2006_01_02 (Date (fst (genios_ToIntermediateSchema e d)))
     \<and> IntermediateSchema.ID (fst (genios_ToIntermediateSchema e d)) = FincID d
     \<and> RecordID (fst (genios_ToIntermediateSchema e d)) = Document.ID d"
  by (cases "genios_Date d")
     (auto simp: genios_ToIntermediateSchema_def Let_def split: if_splits)

lemma genios_long_ID_skipped:
  "KeyLengthLimit e < length (FincID d) \<Longrightarrow>
     \<exists>reason. snd (genios_ToIntermediateSchema e d) = Some (Skip reason)"
  by (cases "genios_Date d")
     (auto simp: genios_ToIntermediateSchema_def Let_def split: if_splits)

lemmas trim_eval = TrimSpace_def strip_lead.simps lead_width_def space_runes_def

lemma TrimSpace_as: "TrimSpace (replicate n (CHR ''a'')) = replicate n (CHR ''a'')"
proof (cases n)
  case 0
  then show ?thesis by (simp add: trim_eval)
next
  case (Suc m)
  have a: "strip_lead space_runes (CHR ''a'' # replicate m (CHR ''a'')) = CHR ''a'' # replicate m (CHR ''a'')"
    by (simp add: lead_width_def space_runes_def)
  have b: "strip_lead (map rev space_runes) (CHR ''a'' # replicate m (CHR ''a''))
      = CHR ''a'' # replicate m (CHR ''a'')"
    by (simp add: lead_width_def space_runes_def)
  have "rev (CHR ''a'' # replicate m (CHR ''a'')) = CHR ''a'' # replicate m (CHR ''a'')"
    by (metis replicate_Suc rev_replicate)
  then show ?thesis using Suc a b by (simp add: TrimSpace_def)
qed

lemma FincID_length: "length (TrimSpace (Document.ID d)) < length (FincID d)"
  using RawURL_length_ge [of "SourceAndID d"] by (simp add: FincID_def SourceAndID_def)

lemma genios_long_ID_reason:
  "genios_Date d = Inr t \<Longrightarrow> length (TrimSpace (Title d)) \<le> 2048 \<Longrightarrow>
   KeyLengthLimit e < length (FincID d) \<Longrightarrow>
     snd (genios_ToIntermediateSchema e d) = Some (Skip (Literal (''id too long: '' @ FincID d)))"
  by (simp add: genios_ToIntermediateSchema_def Let_def)

lemma Parse_2006_2015: "Parse_2006 ''2015'' = Inr \<lparr>year = 2015, month = 1, day = 1\<rparr>"
  by (simp add: Parse_2006_def is_digit_def digits_val_def digit_val_def)

lemma genios_Date_unfold:
  "genios_Date d =
     (if yearPattern_MatchString (TrimSpace (rawDateReplacer_Replace (Year d)))
      then Parse_2006 (TrimSpace (rawDateReplacer_Replace (Year d)))
      else Parse_20060102 (take 8 (TrimSpace (rawDateReplacer_Replace (RawDate d)))))"
  by (simp add: genios_Date_def Let_def)

lemma year_2015: "TrimSpace (rawDateReplacer_Replace ''2015'') = ''2015''"
  by (simp add: rawDateReplacer_Replace_def trim_eval)

lemma trim_empty: "TrimSpace (rawDateReplacer_Replace []) = [] \<and> TrimSpace [] = []"
  by (simp add: rawDateReplacer_Replace_def trim_eval)

lemma genios_Date_2015: "Year d = ''2015'' \<Longrightarrow> genios_Date d = Inr \<lparr>year = 2015, month = 1, day = 1\<rparr>"
  by (simp add: genios_Date_unfold year_2015 Parse_2006_2015 is_digit_def)

text \<open>
  C5. The Genios adapter skips a document whose ID is longer than the key length limit.
  The genderopen adapter compares the length of its ID with the limit nowhere: whatever
  the limit is, a record whose header identifier has as many bytes as the limit, and whose
  date is \<open>2015\<close>, is converted with no error, and its ID, \<open>ai-162-\<close> and the base64 text
  of the identifier, is longer than the limit.
\<close>

theorem genderopen_long_ID_not_skipped:
  "(let r' = r\<lparr>Header_Identifier := replicate (KeyLengthLimit e) (CHR ''a''), Dc_Date := ''2015''\<rparr>
    in snd (genderopen_ToIntermediateSchema e r') = None
       \<and> KeyLengthLimit e < length (IntermediateSchema.ID (fst (genderopen_ToIntermediateSchema e r')))
       \<and> IntermediateSchema.ID (fst (genderopen_ToIntermediateSchema e r'))
           = ''ai-162-'' @ RawURLEncoding_EncodeToString (replicate (KeyLengthLimit e) (CHR ''a'')))
   \<and> (KeyLengthLimit e < length (FincID d) \<longrightarrow>
        (\<exists>reason. snd (genios_ToIntermediateSchema e d) = Some (Skip reason)))"
proof -
  have d: "list_all is_digit ''2015''" by (simp add: is_digit_def)
  have l: "KeyLengthLimit e
      < length (''ai-162-'' @ RawURLEncoding_EncodeToString (replicate (KeyLengthLimit e) (CHR ''a'')))"
    using RawURL_length_ge [of "replicate (KeyLengthLimit e) (CHR ''a'')"] by simp
  show ?thesis
    using d l genios_long_ID_skipped [of e d]
    by (simp add: Let_def genderopen_ID genderopen_success)
qed

theorem genderopen_long_ID_not_skipped_witness:
  "KeyLengthLimit example_env
     < length (FincID (example_Document\<lparr>Document.ID := replicate 250 (CHR ''a''), Year := ''2015''\<rparr>))
   \<and> (\<exists>reason. snd (genios_ToIntermediateSchema example_env
          (example_Document\<lparr>Document.ID := replicate 250 (CHR ''a''), Year := ''2015''\<rparr>))
        = Some (Skip reason))
   \<and> snd (genios_ToIntermediateSchema example_env
          (example_Document\<lparr>Document.ID := replicate 250 (CHR ''a''), Year := ''2015''\<rparr>))
       = Some (Skip (Literal (''id too long: ''
           @ FincID (example_Document\<lparr>Document.ID := replicate 250 (CHR ''a''), Year := ''2015''\<rparr>))))
   \<and> snd (genderopen_ToIntermediateSchema example_env
          (example_Record\<lparr>Header_Identifier := replicate 250 (CHR ''a''), Dc_Date := ''2015''\<rparr>)) = None
   \<and> 250 < length (IntermediateSchema.ID (fst (genderopen_ToIntermediateSchema example_env
          (example_Record\<lparr>Header_Identifier := replicate 250 (CHR ''a''), Dc_Date := ''2015''\<rparr>))))"
proof -
  let ?d = "example_Document\<lparr>Document.ID := replicate 250 (CHR ''a''), Year := ''2015''\<rparr>"
  have k: "KeyLengthLimit example_env = 250" by (simp add: example_env_def)
  have l: "KeyLengthLimit example_env < length (FincID ?d)"
    using FincID_length [of ?d] by (simp add: k TrimSpace_as)
  note t = genderopen_long_ID_not_skipped [where r = example_Record and e = example_env and d = ?d]
  have a: "\<exists>reason. snd (genios_ToIntermediateSchema example_env ?d) = Some (Skip reason)"
    using t [THEN conjunct2] l by blast
  have y: "genios_Date ?d = Inr \<lparr>year = 2015, month = 1, day = 1\<rparr>"
    by (rule genios_Date_2015) simp
  have ti: "length (TrimSpace (Title ?d)) \<le> 2048"
    by (simp add: example_Document_def trim_empty)
  have b: "snd (genios_ToIntermediateSchema example_env ?d)
      = Some (Skip (Literal (''id too long: '' @ FincID ?d)))"
    by (rule genios_long_ID_reason [OF y ti l])
  have c: "snd (genderopen_ToIntermediateSchema example_env
          (example_Record\<lparr>Header_Identifier := replicate 250 (CHR ''a''), Dc_Date := ''2015''\<rparr>)) = None
     \<and> 250 < length (IntermediateSchema.ID (fst (genderopen_ToIntermediateSchema example_env
          (example_Record\<lparr>Header_Identifier := replicate 250 (CHR ''a''), Dc_Date := ''2015''\<rparr>))))"
    using t [THEN conjunct1, unfolded Let_def k] by blast
  from l a b c show ?thesis by blast
qed

lemma Format_2015: "Format_2006_01_02 \<lparr>year = 2015, month = 1, day = 1\<rparr> = ''2015-01-01''"
  by (simp add: Format_2006_01_02_def pad_digits_def nat_digits.simps digit_char_def)

lemma Parse_20180315:
  "Parse_20060102 ''20180315'' = Inr \<lparr>year = 2018, month = 3, day = 15\<rparr>"
  by (simp add: Parse_20060102_def is_digit_def digits_val_def digit_val_def daysIn_def Let_def)

text \<open>
  How the adapters read the date. Genios reads it from the cleaned \<open>Year\<close>, parsed as a
  year of four digits, when a year from 1000 to 2999 occurs in it, and otherwise from the
  cleaned \<open>Date\<close> cut to its first 8 bytes, parsed as year, month and day; genderopen
  parses the first 4 bytes of its date as a year. The year \<open>2015\<close> alone is the date
  2015-01-01. A Genios document whose date does not parse is a Skip with the parser's
  message as reason; a genderopen record with an empty date or one of fewer than 4 bytes
  is a Skip with the reasons \<open>empty date\<close> and \<open>short date\<close>. A conversion succeeds only
  with a date that parsed, and the date and the raw date of its output are that date: none
  is set to the current time or to the zero time.
\<close>

lemma date_resolution:
  "genios_Date d =
     (if yearPattern_MatchString (TrimSpace (rawDateReplacer_Replace (Year d)))
      then Parse_2006 (TrimSpace (rawDateReplacer_Replace (Year d)))
      else Parse_20060102 (take 8 (TrimSpace (rawDateReplacer_Replace (RawDate d)))))
   \<and> Parse_2006 ''2015'' = Inr \<lparr>year = 2015, month = 1, day = 1\<rparr>
   \<and> Format_2006_01_02 \<lparr>year = 2015, month = 1, day = 1\<rparr> = ''2015-01-01''
   \<and> Parse_20060102 ''20180315'' = Inr \<lparr>year = 2018, month = 3, day = 15\<rparr>
   \<and> (\<forall>err. genios_Date d = Inl err \<longrightarrow>
         snd (genios_ToIntermediateSchema e d) = Some (Skip (ErrorText err)))
   \<and> (snd (genios_ToIntermediateSchema e d) = None \<longrightarrow>
         genios_Date d = Inr (Date (fst (genios_ToIntermediateSchema e d)))
         \<and> IntermediateSchema.RawDate (fst (genios_ToIntermediateSchema e d))
             = Format_2006_01_02 (Date (fst (genios_ToIntermediateSchema e d))))
   \<and> (Dc_Date r = [] \<longrightarrow>
         snd (genderopen_ToIntermediateSchema e r) = Some (Skip (Literal ''empty date'')))
   \<and> (Dc_Date r \<noteq> [] \<and> length (Dc_Date r) < 4 \<longrightarrow>
         snd (genderopen_ToIntermediateSchema e r) = Some (Skip (Literal ''short date'')))
   \<and> (snd (genderopen_ToIntermediateSchema e r) = None \<longleftrightarrow>
         4 \<le> length (Dc_Date r) \<and> list_all is_digit (take 4 (Dc_Date r)))
   \<and> (snd (genderopen_ToIntermediateSchema e r) = None \<longrightarrow>
         Parse_2006 (take 4 (Dc_Date r)) = Inr (Date (fst (genderopen_ToIntermediateSchema e r)))
         \<and> IntermediateSchema.RawDate (fst (genderopen_ToIntermediateSchema e r))
             = Format_2006_01_02 (Date (fst (genderopen_ToIntermediateSchema e r))))"
  using genios_Date_unfold [of d] Parse_2006_2015 Format_2015 Parse_20180315
    genios_date_error [of d _ e] genios_success_fields [of e d]
    genderopen_empty_date [of r e] genderopen_short_date [of r e]
    genderopen_success [of e r] genderopen_date [of e r]
  by blast

lemma date_20180315: "TrimSpace (rawDateReplacer_Replace ''20180315'') = ''20180315''"
  by (simp add: rawDateReplacer_Replace_def trim_eval)

lemma example_FincID: "Source d = [] \<Longrightarrow> Document.ID d = [] \<Longrightarrow> length (FincID d) \<le> 250"
  by (simp add: FincID_def SourceAndID_def trim_empty
      RawURLEncoding_EncodeToString_def EncodeToString_length)

lemma date_resolution_examples:
  "genios_Date (example_Document\<lparr>Year := ''2015''\<rparr>) = Inr \<lparr>year = 2015, month = 1, day = 1\<rparr>
   \<and> genios_Date (example_Document\<lparr>RawDate := ''20180315''\<rparr>)
       = Inr \<lparr>year = 2018, month = 3, day = 15\<rparr>
   \<and> genios_Date example_Document = Inl (ParseError ''20060102'' [])
   \<and> snd (genios_ToIntermediateSchema example_env example_Document)
       = Some (Skip (ErrorText (ParseError ''20060102'' [])))
   \<and> snd (genios_ToIntermediateSchema example_env (example_Document\<lparr>Year := ''2015''\<rparr>)) = None
   \<and> Date (fst (genios_ToIntermediateSchema example_env (example_Document\<lparr>Year := ''2015''\<rparr>)))
       = \<lparr>year = 2015, month = 1, day = 1\<rparr>
   \<and> IntermediateSchema.RawDate
        (fst (genios_ToIntermediateSchema example_env (example_Document\<lparr>Year := ''2015''\<rparr>)))
       = ''2015-01-01''
   \<and> snd (genderopen_ToIntermediateSchema example_env example_Record)
       = Some (Skip (Literal ''empty date''))
   \<and> snd (genderopen_ToIntermediateSchema example_env (example_Record\<lparr>Dc_Date := ''201''\<rparr>))
       = Some (Skip (Literal ''short date''))
   \<and> snd (genderopen_ToIntermediateSchema example_env (example_Record\<lparr>Dc_Date := ''2015''\<rparr>)) = None
   \<and> Date (fst (genderopen_ToIntermediateSchema example_env (example_Record\<lparr>Dc_Date := ''2015''\<rparr>)))
       = \<lparr>year = 2015, month = 1, day = 1\<rparr>
   \<and> IntermediateSchema.RawDate
        (fst (genderopen_ToIntermediateSchema example_env (example_Record\<lparr>Dc_Date := ''2015''\<rparr>)))
       = ''2015-01-01''"
proof -
  let ?d = "example_Document\<lparr>Year := ''2015''\<rparr>"
  let ?r = "example_Record\<lparr>Dc_Date := ''2015''\<rparr>"
  have m: "yearPattern_MatchString ''2015''" "\<not> yearPattern_MatchString []"
    by (simp_all add: is_digit_def)
  have g1: "genios_Date ?d = Inr \<lparr>year = 2015, month = 1, day = 1\<rparr>"
    using date_resolution [of ?d example_env example_Record, THEN conjunct1] m
    by (simp add: year_2015 Parse_2006_2015)
  have g2: "genios_Date (example_Document\<lparr>RawDate := ''20180315''\<rparr>)
       = Inr \<lparr>year = 2018, month = 3, day = 15\<rparr>"
    using date_resolution [of "example_Document\<lparr>RawDate := ''20180315''\<rparr>" example_env
        example_Record, THEN conjunct1] m
    by (simp add: example_Document_def trim_empty date_20180315 Parse_20180315)
  have g3: "genios_Date example_Document = Inl (ParseError ''20060102'' [])"
    using date_resolution [of example_Document example_env example_Record, THEN conjunct1] m
    by (simp add: example_Document_def trim_empty Parse_20060102_def)
  have g4: "snd (genios_ToIntermediateSchema example_env example_Document)
       = Some (Skip (ErrorText (ParseError ''20060102'' [])))"
    using date_resolution [of example_Document example_env example_Record] g3 by blast
  have t: "length (TrimSpace (Title ?d)) \<le> 2048"
    by (simp add: example_Document_def trim_empty)
  have k: "length (FincID ?d) \<le> KeyLengthLimit example_env"
    using example_FincID [of ?d]
    by (simp add: example_env_def example_Document_def)
  have g5: "snd (genios_ToIntermediateSchema example_env ?d) = None"
    using genios_success [of example_env ?d] g1 t k by simp
  have g6: "genios_Date ?d = Inr (Date (fst (genios_ToIntermediateSchema example_env ?d)))
      \<and> IntermediateSchema.RawDate (fst (genios_ToIntermediateSchema example_env ?d))
          = Format_2006_01_02 (Date (fst (genios_ToIntermediateSchema example_env ?d)))"
    using date_resolution [of ?d example_env example_Record] g5 by blast
  then have g7: "Date (fst (genios_ToIntermediateSchema example_env ?d))
       = \<lparr>year = 2015, month = 1, day = 1\<rparr>"
    using g1 by simp
  have g8: "IntermediateSchema.RawDate (fst (genios_ToIntermediateSchema example_env ?d))
       = ''2015-01-01''"
    using g6 g7 Format_2015 by simp
  have o1: "snd (genderopen_ToIntermediateSchema example_env example_Record)
       = Some (Skip (Literal ''empty date''))"
    using date_resolution [of example_Document example_env example_Record]
    by (simp add: example_Record_def)
  have o2: "snd (genderopen_ToIntermediateSchema example_env (example_Record\<lparr>Dc_Date := ''201''\<rparr>))
       = Some (Skip (Literal ''short date''))"
    using date_resolution [of example_Document example_env "example_Record\<lparr>Dc_Date := ''201''\<rparr>"]
    by simp
  have o3: "snd (genderopen_ToIntermediateSchema example_env ?r) = None"
    using date_resolution [of example_Document example_env ?r]
    by (simp add: is_digit_def)
  have o4: "Parse_2006 (take 4 (Dc_Date ?r))
        = Inr (Date (fst (genderopen_ToIntermediateSchema example_env ?r)))
      \<and> IntermediateSchema.RawDate (fst (genderopen_ToIntermediateSchema example_env ?r))
          = Format_2006_01_02 (Date (fst (genderopen_ToIntermediateSchema example_env ?r)))"
    using date_resolution [of example_Document example_env ?r] o3 by blast
  then have o5: "Date (fst (genderopen_ToIntermediateSchema example_env ?r))
       = \<lparr>year = 2015, month = 1, day = 1\<rparr>"
    using Parse_2006_2015 by simp
  have o6: "IntermediateSchema.RawDate (fst (genderopen_ToIntermediateSchema example_env ?r))
       = ''2015-01-01''"
    using o4 o5 Format_2015 by simp
  from g1 g2 g3 g4 g5 g7 g8 o1 o2 o3 o5 o6 show ?thesis by blast
qed

text \<open>
  Genios does not fall back to \<open>Date\<close> when \<open>Year\<close> holds a year and more: with the
  year \<open>2015x\<close> the date \<open>20150102\<close>, which parses, is never read.
\<close>

lemma genios_year_with_more_text:
  "genios_Date (example_Document\<lparr>Year := ''2015x'', RawDate := ''20150102''\<rparr>)
       = Inl (ParseError ''2006'' ''2015x'')
   \<and> Parse_20060102 ''20150102'' = Inr \<lparr>year = 2015, month = 1, day = 2\<rparr>"
proof -
  have y: "TrimSpace (rawDateReplacer_Replace ''2015x'') = ''2015x''"
    by (simp add: rawDateReplacer_Replace_def trim_eval)
  have b: "genios_Date (example_Document\<lparr>Year := ''2015x'', RawDate := ''20150102''\<rparr>)
       = Inl (ParseError ''2006'' ''2015x'')"
    by (simp add: genios_Date_unfold y is_digit_def Parse_2006_def)
  have c: "Parse_20060102 ''20150102'' = Inr \<lparr>year = 2015, month = 1, day = 2\<rparr>"
    by (simp add: Parse_20060102_def is_digit_def digits_val_def digit_val_def daysIn_def Let_def)
  from b c show ?thesis by blast
qed

lemma genderopen_unparseable_date:
  "4 \<le> length (Dc_Date r) \<Longrightarrow> \<not> list_all is_digit (take 4 (Dc_Date r)) \<Longrightarrow>
     snd (genderopen_ToIntermediateSchema e r)
       = Some (TimeError (ParseError ''2006'' (take 4 (Dc_Date r))))"
  by (auto simp: genderopen_ToIntermediateSchema_def Let_def Parse_2006_def)

text \<open>
  C6. A genderopen record whose date has four bytes or more, the first four of them not
  all digits, is returned with the error of \<open>time.Parse\<close> itself, which is not a
  \<open>span.Skip\<close>: so the record with the date \<open>abcd\<close>. The paths beside it do skip: the
  empty date and the short date in the same function, and in Genios the date that does
  not parse.
\<close>

theorem genderopen_unparseable_date_not_Skip:
  "snd (genderopen_ToIntermediateSchema example_env (example_Record\<lparr>Dc_Date := ''abcd''\<rparr>))
     = Some (TimeError (ParseError ''2006'' ''abcd''))
   \<and> (4 \<le> length (Dc_Date r) \<and> \<not> list_all is_digit (take 4 (Dc_Date r)) \<longrightarrow>
        snd (genderopen_ToIntermediateSchema e r)
          = Some (TimeError (ParseError ''2006'' (take 4 (Dc_Date r))))
        \<and> (\<forall>reason. snd (genderopen_ToIntermediateSchema e r) \<noteq> Some (Skip reason)))
   \<and> (Dc_Date r = [] \<longrightarrow>
        snd (genderopen_ToIntermediateSchema e r) = Some (Skip (Literal ''empty date'')))
   \<and> (Dc_Date r \<noteq> [] \<and> length (Dc_Date r) < 4 \<longrightarrow>
        snd (genderopen_ToIntermediateSchema e r) = Some (Skip (Literal ''short date'')))
   \<and> (\<forall>err. genios_Date d = Inl err \<longrightarrow>
        snd (genios_ToIntermediateSchema e d) = Some (Skip (ErrorText err)))"
proof -
  have a: "snd (genderopen_ToIntermediateSchema example_env (example_Record\<lparr>Dc_Date := ''abcd''\<rparr>))
     = Some (TimeError (ParseError ''2006'' ''abcd''))"
    using genderopen_unparseable_date [of "example_Record\<lparr>Dc_Date := ''abcd''\<rparr>" example_env]
    by (simp add: is_digit_def)
  show ?thesis
    using a genderopen_unparseable_date [of r e] genderopen_empty_date [of r e]
      genderopen_short_date [of r e] genios_date_error [of d _ e]
    by auto
qed

theorem genderopen_unparseable_date_not_Skip_witness:
  "4 \<le> length (Dc_Date (example_Record\<lparr>Dc_Date := ''n.d.''\<rparr>))
   \<and> \<not> list_all is_digit (take 4 (Dc_Date (example_Record\<lparr>Dc_Date := ''n.d.''\<rparr>)))
   \<and> snd (genderopen_ToIntermediateSchema example_env (example_Record\<lparr>Dc_Date := ''n.d.''\<rparr>))
       = Some (TimeError (ParseError ''2006'' ''n.d.''))
   \<and> snd (genderopen_ToIntermediateSchema example_env example_Record)
       = Some (Skip (Literal ''empty date''))
   \<and> snd (genderopen_ToIntermediateSchema example_env (example_Record\<lparr>Dc_Date := ''201''\<rparr>))
       = Some (Skip (Literal ''short date''))
   \<and> genios_Date example_Document = Inl (ParseError ''20060102'' [])
   \<and> snd (genios_ToIntermediateSchema example_env example_Document)
       = Some (Skip (ErrorText (ParseError ''20060102'' [])))"
proof -
  let ?r = "example_Record\<lparr>Dc_Date := ''n.d.''\<rparr>"
  have h: "4 \<le> length (Dc_Date ?r)" "\<not> list_all is_digit (take 4 (Dc_Date ?r))"
    by (simp_all add: is_digit_def)
  have a: "snd (genderopen_ToIntermediateSchema example_env ?r)
       = Some (TimeError (ParseError ''2006'' ''n.d.''))"
    using genderopen_unparseable_date_not_Skip [where r = ?r and e = example_env
        and d = example_Document] h
    by simp
  have b: "snd (genderopen_ToIntermediateSchema example_env example_Record)
       = Some (Skip (Literal ''empty date''))"
    using genderopen_unparseable_date_not_Skip [where r = example_Record and e = example_env
        and d = example_Document]
    by (simp add: example_Record_def)
  have c: "snd (genderopen_ToIntermediateSchema example_env (example_Record\<lparr>Dc_Date := ''201''\<rparr>))
       = Some (Skip (Literal ''short date''))"
    using genderopen_unparseable_date_not_Skip [where r = "example_Record\<lparr>Dc_Date := ''201''\<rparr>"
        and e = example_env and d = example_Document]
    by simp
  have g: "genios_Date example_Document = Inl (ParseError ''20060102'' [])"
    by (simp add: genios_Date_unfold example_Document_def trim_empty Parse_20060102_def)
  have d: "snd (genios_ToIntermediateSchema example_env example_Document)
       = Some (Skip (ErrorText (ParseError ''20060102'' [])))"
    using genderopen_unparseable_date_not_Skip [where r = example_Record and e = example_env
        and d = example_Document] g
    by blast
  from h a b c g d show ?thesis by blast
qed












end
